theory Spec2Isabelle
  imports Main "HOL-Library.Sublist" "HOL-Library.AList"
begin

section \<open>The ACWhisk service worker\<close>

text \<open>
  The development embeds the service worker script of the repository (the second document
  of \<^verbatim>\<open>src/components/ui/motion.tsx\<close>): its configuration constants, the request
  classifier of the \<^verbatim>\<open>fetch\<close> listener, the four strategy handlers, the
  \<^verbatim>\<open>install\<close>, \<^verbatim>\<open>activate\<close>, \<^verbatim>\<open>sync\<close> and \<^verbatim>\<open>message\<close>
  listeners. The host objects the script calls (\<^verbatim>\<open>caches\<close>, \<^verbatim>\<open>Cache\<close>,
  \<^verbatim>\<open>fetch\<close>, \<^verbatim>\<open>Response\<close>, \<^verbatim>\<open>Headers\<close>, \<^verbatim>\<open>clients\<close>) are modelled
  as operations on an explicit world state; every operation appends the effect it performs to a
  trace, so that a listener that touches no cache leaves the trace as it found it.

  Asynchrony is sequentialised: an \<^verbatim>\<open>await\<close> is a let-binding, a promise chain runs
  in the order of its \<^verbatim>\<open>then\<close> links, and a cache write the source starts without
  awaiting it is performed before the handler returns. Failures of the cache store itself (quota,
  store unavailable) are outside the model.
\<close>

subsection \<open>Strings\<close>

text \<open>\<^verbatim>\<open>String.prototype.includes\<close>, and a regular expression that is a plain literal.\<close>

definition str_includes :: "string \<Rightarrow> string \<Rightarrow> bool" where
  "str_includes s t = sublist t s"

text \<open>ASCII lower-casing, as \<^verbatim>\<open>Headers\<close> normalises names and as the \<^verbatim>\<open>i\<close> flag
  compares the letters of an ASCII pattern.\<close>

definition to_lower_char :: "char \<Rightarrow> char" where
  "to_lower_char c =
     (case map_of (zip ''ABCDEFGHIJKLMNOPQRSTUVWXYZ'' ''abcdefghijklmnopqrstuvwxyz'') c of
        Some l \<Rightarrow> l
      | None \<Rightarrow> c)"

definition to_lower :: "string \<Rightarrow> string" where
  "to_lower s = map to_lower_char s"

fun join :: "string \<Rightarrow> string list \<Rightarrow> string" where
  "join sep [] = []"
| "join sep [x] = x"
| "join sep (x # y # ys) = x @ sep @ join sep (y # ys)"

definition newline :: string where
  "newline = [CHR 0x0A]"

subsection \<open>Headers and responses\<close>

type_synonym header_list = "(string \<times> string) list"

text \<open>A \<^verbatim>\<open>Headers\<close> object stores names lower-cased; \<^verbatim>\<open>get\<close> lower-cases the
  name asked for and joins the values stored under it with a comma and a space.\<close>

definition headers_get :: "string \<Rightarrow> header_list \<Rightarrow> string option" where
  "headers_get name hs =
     (case filter (\<lambda>h. fst h = to_lower name) hs of
        [] \<Rightarrow> None
      | vs \<Rightarrow> Some (join '', '' (map snd vs)))"

definition headers_from_object :: "header_list \<Rightarrow> header_list" where
  "headers_from_object obj = map (\<lambda>h. (to_lower (fst h), snd h)) obj"

text \<open>Object spread copies the own enumerable properties of its operand. A \<^verbatim>\<open>Headers\<close>
  object keeps its entries in an internal list and has no own enumerable property, so
  \<^verbatim>\<open>{...response.headers}\<close> is the empty object whatever the headers are.\<close>

definition spread_Headers :: "header_list \<Rightarrow> header_list" where
  "spread_Headers hs = []"

text \<open>An object literal: a later property of the same name replaces the value of the earlier one.\<close>

definition object_literal :: "header_list \<Rightarrow> header_list \<Rightarrow> header_list" where
  "object_literal spread props = fold (\<lambda>p obj. AList.update (fst p) (snd p) obj) props spread"

record response =
  status :: nat
  statusText :: string
  headers :: header_list
  body :: string

datatype body_init = TextBody string | StreamBody string

fun body_text :: "body_init \<Rightarrow> string" where
  "body_text (TextBody s) = s"
| "body_text (StreamBody s) = s"

text \<open>\<^verbatim>\<open>new Response(body, init)\<close>: the status defaults to 200 and the status text to the
  empty string; a body given as a string contributes the content type
  \<^verbatim>\<open>text/plain;charset=UTF-8\<close> when the init headers name none, a stream contributes
  nothing.\<close>

definition new_Response :: "body_init \<Rightarrow> nat option \<Rightarrow> string option \<Rightarrow> header_list \<Rightarrow> response" where
  "new_Response b st stt obj =
     (let hs = headers_from_object obj;
          hs' = (case b of
                   TextBody _ \<Rightarrow>
                     (if headers_get ''content-type'' hs = None
                      then hs @ [(''content-type'', ''text/plain;charset=UTF-8'')]
                      else hs)
                 | StreamBody _ \<Rightarrow> hs)
      in \<lparr>status = (case st of None \<Rightarrow> 200 | Some n \<Rightarrow> n),
          statusText = (case stt of None \<Rightarrow> [] | Some t \<Rightarrow> t),
          headers = hs',
          body = body_text b\<rparr>)"

definition response_ok :: "response \<Rightarrow> bool" where
  "response_ok r = (200 \<le> status r \<and> status r \<le> 299)"

subsection \<open>\<^verbatim>\<open>JSON.stringify\<close> of a flat object\<close>

datatype json_value = JString string | JBool bool

definition hex_digit :: "nat \<Rightarrow> char" where
  "hex_digit n = ''0123456789abcdef'' ! (n mod 16)"

definition json_escape_char :: "char \<Rightarrow> string" where
  "json_escape_char c =
     (if c = CHR 0x22 then [CHR 0x5C, CHR 0x22]
      else if c = CHR 0x5C then [CHR 0x5C, CHR 0x5C]
      else if c = CHR 0x08 then [CHR 0x5C, CHR ''b'']
      else if c = CHR 0x09 then [CHR 0x5C, CHR ''t'']
      else if c = CHR 0x0A then [CHR 0x5C, CHR ''n'']
      else if c = CHR 0x0C then [CHR 0x5C, CHR ''f'']
      else if c = CHR 0x0D then [CHR 0x5C, CHR ''r'']
      else if (of_char c :: nat) < 32
        then [CHR 0x5C, CHR ''u'', CHR ''0'', CHR ''0'',
              hex_digit (of_char c div 16), hex_digit (of_char c)]
      else [c])"

definition json_quote :: "string \<Rightarrow> string" where
  "json_quote s = [CHR 0x22] @ concat (map json_escape_char s) @ [CHR 0x22]"

fun json_stringify_value :: "json_value \<Rightarrow> string" where
  "json_stringify_value (JString s) = json_quote s"
| "json_stringify_value (JBool b) = (if b then ''true'' else ''false'')"

definition JSON_stringify :: "(string \<times> json_value) list \<Rightarrow> string" where
  "JSON_stringify obj =
     ''{'' @ join '','' (map (\<lambda>p. json_quote (fst p) @ '':'' @ json_stringify_value (snd p)) obj) @ ''}''"

subsection \<open>Configuration\<close>

definition CACHE_NAME :: string where
  "CACHE_NAME = ''acwhisk-v1.0.3''"

definition IMAGE_CACHE_NAME :: string where
  "IMAGE_CACHE_NAME = ''acwhisk-images-v1.0.3''"

definition STATIC_CACHE :: string where
  "STATIC_CACHE = ''acwhisk-static-v1.0.3''"

definition DYNAMIC_CACHE :: string where
  "DYNAMIC_CACHE = ''acwhisk-dynamic-v1.0.3''"

definition STATIC_ASSETS :: "string list" where
  "STATIC_ASSETS =
     [''/'',
      ''/App.tsx'',
      ''/styles/globals.css'',
      ''/components/ui/button.tsx'',
      ''/components/ui/card.tsx'',
      ''/components/ui/avatar.tsx'',
      ''/components/figma/ImageWithFallback.tsx'']"

text \<open>Each pattern is a regular expression without metacharacters: it tests for a substring.\<close>

definition API_CACHE_PATTERNS :: "string list" where
  "API_CACHE_PATTERNS = [''/api/recipes'', ''/api/posts'', ''/api/users'', ''/api/auth'']"

subsection \<open>Requests and their classification\<close>

text \<open>A request with the parts of \<^verbatim>\<open>new URL(request.url)\<close> the script reads. The
  \<^verbatim>\<open>url\<close> is the key of a cache entry.\<close>

record request =
  req_method :: string
  url :: string
  protocol :: string
  hostname :: string
  pathname :: string
  destination :: string

definition image_extensions :: "string list" where
  "image_extensions = [''jpg'', ''jpeg'', ''png'', ''gif'', ''webp'', ''svg'']"

text \<open>The tail \<^verbatim>\<open>(\?.*)?$\<close>: nothing, or a question mark followed by characters none of
  which ends a line. The path of a URL is serialised in ASCII, where the line ends are LF and CR.\<close>

definition query_tail :: "string \<Rightarrow> bool" where
  "query_tail t =
     (case t of
        [] \<Rightarrow> True
      | c # cs \<Rightarrow> c = CHR ''?'' \<and> CHR 0x0A \<notin> set cs \<and> CHR 0x0D \<notin> set cs)"

text \<open>\<^verbatim>\<open>/\.(jpg|jpeg|png|gif|webp|svg)(\?.*)?$/i.test(s)\<close>: some suffix of \<^verbatim>\<open>s\<close> is a
  dot, an extension in either case, and a tail.\<close>

definition image_extension_test :: "string \<Rightarrow> bool" where
  "image_extension_test s =
     list_ex (\<lambda>t. list_ex (\<lambda>e. prefix (''.'' @ e) (to_lower t) \<and> query_tail (drop (Suc (length e)) t))
                     image_extensions)
             (suffixes s)"

definition isImageRequest :: "request \<Rightarrow> bool" where
  "isImageRequest r =
     (image_extension_test (pathname r) \<or>
      str_includes (pathname r) ''/upload/'' \<or>
      str_includes (hostname r) ''supabase.co'')"

definition isAPIRequest :: "request \<Rightarrow> bool" where
  "isAPIRequest r = list_ex (\<lambda>pattern. str_includes (pathname r) pattern) API_CACHE_PATTERNS"

datatype strategy = Page | Image | API | Asset

text \<open>The \<^verbatim>\<open>fetch\<close> listener up to its call of \<^verbatim>\<open>event.respondWith\<close>:
  \<open>None\<close> when the listener returns without responding, so that the host handles the request
  as if no worker were there.\<close>

definition fetch_route :: "request \<Rightarrow> strategy option" where
  "fetch_route r =
     (if req_method r \<noteq> ''GET'' then None
      else if protocol r = ''chrome-extension:'' then None
      else if str_includes (hostname r) ''supabase.co'' \<and> str_includes (pathname r) ''/auth/'' then None
      else if destination r = ''document'' then Some Page
      else if destination r = ''image'' \<or> isImageRequest r then Some Image
      else if isAPIRequest r then Some API
      else Some Asset)"

subsection \<open>The world: cache storage, page contexts, and the trace of effects\<close>

type_synonym cache = "(string \<times> response) list"

datatype client_message = SYNC_COMPLETE int

datatype port_message =
    Success bool
  | CacheSize nat nat nat

datatype effect =
    CachesOpen string
  | CachesDelete string
  | CachesKeys
  | CachesMatch string
  | CacheMatch string string
  | CacheKeys string
  | CachePut string string
  | CachePutRejected string string
  | CacheDelete string string
  | Fetch string string
  | SkipWaiting
  | ClientsClaim
  | ClientsMatchAll
  | ClientPost nat client_message
  | PortPost nat port_message
  | UnhandledRejection
  | ConsoleError

text \<open>\<open>caches\<close> is the origin's cache storage, partitions in creation order, each an
  association list from request URL to response; \<open>clients\<close> are the page contexts that
  \<^verbatim>\<open>self.clients.matchAll()\<close> enumerates.\<close>

record world =
  caches :: "(string \<times> cache) list"
  clients :: "nat list"
  trace :: "effect list"

text \<open>The network answers a method, a URL and the extra request headers with a response, or
  fails (\<open>None\<close>: the promise of \<^verbatim>\<open>fetch\<close> rejects).\<close>

type_synonym network = "string \<Rightarrow> string \<Rightarrow> header_list \<Rightarrow> response option"

datatype fetch_error = NetworkError

definition emit :: "effect \<Rightarrow> world \<Rightarrow> world" where
  "emit e w = w\<lparr>trace := trace w @ [e]\<rparr>"

definition fetch :: "network \<Rightarrow> string \<Rightarrow> string \<Rightarrow> header_list \<Rightarrow> world \<Rightarrow> response option \<times> world" where
  "fetch net m u hs w = (net m u hs, emit (Fetch m u) w)"

text \<open>\<^verbatim>\<open>caches.open(name)\<close> creates the partition when it does not exist.\<close>

definition caches_open :: "string \<Rightarrow> world \<Rightarrow> world" where
  "caches_open name w =
     emit (CachesOpen name)
       (if map_of (caches w) name = None then w\<lparr>caches := caches w @ [(name, [])]\<rparr> else w)"

definition caches_delete :: "string \<Rightarrow> world \<Rightarrow> world" where
  "caches_delete name w =
     emit (CachesDelete name) (w\<lparr>caches := filter (\<lambda>p. fst p \<noteq> name) (caches w)\<rparr>)"

definition caches_keys :: "world \<Rightarrow> string list \<times> world" where
  "caches_keys w = (map fst (caches w), emit CachesKeys w)"

definition the_cache :: "string \<Rightarrow> world \<Rightarrow> cache" where
  "the_cache name w = (case map_of (caches w) name of None \<Rightarrow> [] | Some c \<Rightarrow> c)"

text \<open>A lookup takes the method and the URL of the request it is given: it matches the URL of
  a GET request, and a request of another method matches nothing.
  \<^verbatim>\<open>caches.match\<close> asks every partition in creation order.\<close>

fun first_match :: "string \<Rightarrow> cache list \<Rightarrow> response option" where
  "first_match u [] = None"
| "first_match u (c # cs) = (case map_of c u of Some r \<Rightarrow> Some r | None \<Rightarrow> first_match u cs)"

definition caches_match :: "string \<Rightarrow> string \<Rightarrow> world \<Rightarrow> response option \<times> world" where
  "caches_match m u w =
     ((if m = ''GET'' then first_match u (map snd (caches w)) else None), emit (CachesMatch u) w)"

definition cache_match :: "string \<Rightarrow> string \<Rightarrow> string \<Rightarrow> world \<Rightarrow> response option \<times> world" where
  "cache_match name m u w =
     ((if m = ''GET'' then map_of (the_cache name w) u else None), emit (CacheMatch name u) w)"

definition cache_keys :: "string \<Rightarrow> world \<Rightarrow> string list \<times> world" where
  "cache_keys name w = (map fst (the_cache name w), emit (CacheKeys name) w)"

definition update_cache :: "string \<Rightarrow> (cache \<Rightarrow> cache) \<Rightarrow> world \<Rightarrow> world" where
  "update_cache name f w =
     w\<lparr>caches := map (\<lambda>p. if fst p = name then (fst p, f (snd p)) else p) (caches w)\<rparr>"

definition entry_put :: "string \<Rightarrow> response \<Rightarrow> cache \<Rightarrow> cache" where
  "entry_put u r c = filter (\<lambda>e. fst e \<noteq> u) c @ [(u, r)]"

definition entry_delete :: "string \<Rightarrow> cache \<Rightarrow> cache" where
  "entry_delete u c = filter (\<lambda>e. fst e \<noteq> u) c"

text \<open>A \<^verbatim>\<open>Vary\<close> header with the member \<^verbatim>\<open>*\<close>.\<close>

fun split_on :: "char \<Rightarrow> string \<Rightarrow> string list" where
  "split_on d [] = [[]]"
| "split_on d (c # cs) =
     (if c = d then [] # split_on d cs
      else (case split_on d cs of [] \<Rightarrow> [[c]] | x # xs \<Rightarrow> (c # x) # xs))"

definition trim :: "string \<Rightarrow> string" where
  "trim s =
     rev (dropWhile (\<lambda>c. c = CHR '' '' \<or> c = CHR 0x09)
            (rev (dropWhile (\<lambda>c. c = CHR '' '' \<or> c = CHR 0x09) s)))"

definition vary_star :: "response \<Rightarrow> bool" where
  "vary_star r =
     (case headers_get ''vary'' (headers r) of
        None \<Rightarrow> False
      | Some v \<Rightarrow> ''*'' \<in> set (map trim (split_on (CHR '','') v)))"

text \<open>\<^verbatim>\<open>cache.put\<close> rejects with a TypeError a request whose scheme is not http or https
  or whose method is not GET, a response of status 206, and a response that varies on
  \<^verbatim>\<open>*\<close>. The boolean tells whether the entry was written.\<close>

definition put_allowed :: "string \<Rightarrow> string \<Rightarrow> response \<Rightarrow> bool" where
  "put_allowed scheme m r =
     ((scheme = ''http:'' \<or> scheme = ''https:'') \<and> m = ''GET'' \<and> status r \<noteq> 206 \<and> \<not> vary_star r)"

definition cache_put ::
  "string \<Rightarrow> string \<Rightarrow> string \<Rightarrow> string \<Rightarrow> response \<Rightarrow> world \<Rightarrow> bool \<times> world" where
  "cache_put name scheme m u r w =
     (if put_allowed scheme m r
      then (True, emit (CachePut name u) (update_cache name (entry_put u r) w))
      else (False, emit (CachePutRejected name u) w))"

definition cache_delete :: "string \<Rightarrow> string \<Rightarrow> world \<Rightarrow> world" where
  "cache_delete name u w = emit (CacheDelete name u) (update_cache name (entry_delete u) w)"

subsection \<open>The synthesized responses\<close>

definition offline_page_lines :: "string list" where
  \<open>offline_page_lines =
    [''<!DOCTYPE html>'',
     ''        <html>'',
     ''          <head>'',
     ''            <title>ACWhisk - Offline</title>'',
     ''            <meta charset="utf-8">'',
     ''            <meta name="viewport" content="width=device-width, initial-scale=1">'',
     ''            <style>'',
     ''              body {'',
     ''                font-family: -apple-system, BlinkMacSystemFont, 'Segoe UI', sans-serif;'',
     ''                background: linear-gradient(135deg, #E0EAFC 0%, #CFDEF3 100%);'',
     ''                margin: 0;'',
     ''                padding: 2rem;'',
     ''                min-height: 100vh;'',
     ''                display: flex;'',
     ''                align-items: center;'',
     ''                justify-content: center;'',
     ''              }'',
     ''              .container {'',
     ''                background: rgba(255, 255, 255, 0.4);'',
     ''                backdrop-filter: blur(16px);'',
     ''                border-radius: 1.5rem;'',
     ''                padding: 3rem;'',
     ''                text-align: center;'',
     ''                max-width: 400px;'',
     ''                border: 1px solid rgba(255, 255, 255, 0.18);'',
     ''                box-shadow: 0 8px 32px rgba(31, 38, 135, 0.15);'',
     ''              }'',
     ''              h1 { color: #2D3748; margin-bottom: 1rem; }'',
     ''              p { color: #4A5568; margin-bottom: 2rem; }'',
     ''              .offline-icon { font-size: 4rem; margin-bottom: 1rem; }'',
     ''              .btn {'',
     ''                background: linear-gradient(135deg, #A18CFF 0%, #4FACFE 100%);'',
     ''                color: white;'',
     ''                border: none;'',
     ''                padding: 0.75rem 1.5rem;'',
     ''                border-radius: 2rem;'',
     ''                cursor: pointer;'',
     ''                font-weight: 500;'',
     ''              }'',
     ''            </style>'',
     ''          </head>'',
     ''          <body>'',
     ''            <div class="container">'',
     ''              <div class="offline-icon">'' @ [CHR 0xEF, CHR 0xA3, CHR 0xBF, CHR 0xC3, CHR 0xBC, CHR 0xC3, CHR 0xA7, CHR 0xE2, CHR 0x89, CHR 0xA5] @ ''</div>'',
     ''              <h1>ACWhisk - Offline</h1>'',
     ''              <p>You're currently offline. Please check your internet connection and try again.</p>'',
     ''              <button onclick="window.location.reload()" class="btn">'',
     ''                Try Again'',
     ''              </button>'',
     ''            </div>'',
     ''          </body>'',
     ''        </html>'']\<close>

definition placeholder_svg_lines :: "string list" where
  \<open>placeholder_svg_lines =
    [''<svg width="400" height="300" xmlns="http://www.w3.org/2000/svg">'',
     ''        <defs>'',
     ''          <linearGradient id="grad" x1="0%" y1="0%" x2="100%" y2="100%">'',
     ''            <stop offset="0%" style="stop-color:#e2e8f0;stop-opacity:1" />'',
     ''            <stop offset="100%" style="stop-color:#cbd5e1;stop-opacity:1" />'',
     ''          </linearGradient>'',
     ''        </defs>'',
     ''        <rect width="400" height="300" fill="url(#grad)"/>'',
     ''        <g transform="translate(200,150)">'',
     ''          <circle r="30" fill="#94a3b8" opacity="0.5"/>'',
     ''          <text y="5" text-anchor="middle" fill="#64748b" font-family="Arial" font-size="12">'',
     ''            Image unavailable'',
     ''          </text>'',
     ''        </g>'',
     ''      </svg>'']\<close>

definition offline_page :: response where
  "offline_page =
     new_Response (TextBody (join newline offline_page_lines)) (Some 200) None
       [(''Content-Type'', ''text/html'')]"

definition placeholder_image :: response where
  "placeholder_image =
     new_Response (TextBody (join newline placeholder_svg_lines)) None None
       [(''Content-Type'', ''image/svg+xml''), (''Cache-Control'', ''no-cache'')]"

definition offline_error :: "(string \<times> json_value) list" where
  "offline_error =
     [(''error'', JString ''Network unavailable''),
      (''message'', JString (''This request failed because you are offline. '' @
         ''Please try again when you have an internet connection.'')),
      (''offline'', JBool True)]"

definition offline_api_response :: response where
  "offline_api_response =
     new_Response (TextBody (JSON_stringify offline_error)) (Some 503) None
       [(''Content-Type'', ''application/json'')]"

subsection \<open>The strategy handlers\<close>

text \<open>Each handler returns the value its promise settles with (\<open>Inl\<close>: it rejects) and the
  world it leaves.\<close>

definition handlePageRequest :: "network \<Rightarrow> request \<Rightarrow> world \<Rightarrow> (fetch_error + response) \<times> world" where
  "handlePageRequest net request w =
     (case fetch net (req_method request) (url request) [] w of
        (Some networkResponse, w1) \<Rightarrow>
          (if status networkResponse = 200
           then (Inr networkResponse,
                 snd (cache_put DYNAMIC_CACHE (protocol request) (req_method request) (url request)
                        networkResponse (caches_open DYNAMIC_CACHE w1)))
           else (Inr networkResponse, w1))
      | (None, w1) \<Rightarrow>
          (case caches_match (req_method request) (url request) w1 of
             (Some cachedResponse, w2) \<Rightarrow> (Inr cachedResponse, w2)
           | (None, w2) \<Rightarrow> (Inr offline_page, w2)))"

text \<open>The \<^verbatim>\<open>catch\<close> block of the image handler.\<close>

definition image_fallback :: "request \<Rightarrow> world \<Rightarrow> (fetch_error + response) \<times> world" where
  "image_fallback request w =
     (case cache_match IMAGE_CACHE_NAME (req_method request) (url request) (caches_open IMAGE_CACHE_NAME w) of
        (Some cachedResponse, w1) \<Rightarrow> (Inr cachedResponse, w1)
      | (None, w1) \<Rightarrow> (Inr placeholder_image, w1))"

definition optimizedResponse :: "response \<Rightarrow> response" where
  "optimizedResponse response =
     new_Response (StreamBody (body response)) (Some (status response)) (Some (statusText response))
       (object_literal (spread_Headers (headers response))
          [(''Cache-Control'', ''public, max-age=604800''),
           (''Service-Worker-Cached'', ''true''),
           (''X-Optimized'', ''true'')])"

definition handleOptimizedImageRequest ::
  "network \<Rightarrow> request \<Rightarrow> world \<Rightarrow> (fetch_error + response) \<times> world" where
  "handleOptimizedImageRequest net request w =
     (case cache_match IMAGE_CACHE_NAME (req_method request) (url request) (caches_open IMAGE_CACHE_NAME w) of
        (Some cachedResponse, w1) \<Rightarrow> (Inr cachedResponse, w1)
      | (None, w1) \<Rightarrow>
          (case fetch net (req_method request) (url request)
                  [(''Cache-Control'', ''public, max-age=86400''),
                   (''Accept'', ''image/webp,image/avif,image/*,*/*;q=0.8'')] w1 of
             (Some response, w2) \<Rightarrow>
               (if status response = 200
                then (case cache_put IMAGE_CACHE_NAME (protocol request) (req_method request) (url request)
                             (optimizedResponse response) w2 of
                        (True, w3) \<Rightarrow> (Inr (optimizedResponse response), w3)
                      | (False, w3) \<Rightarrow> image_fallback request w3)
                else (Inr response, w2))
           | (None, w2) \<Rightarrow> image_fallback request w2))"

definition handleAPIRequest :: "network \<Rightarrow> request \<Rightarrow> world \<Rightarrow> (fetch_error + response) \<times> world" where
  "handleAPIRequest net request w =
     (case fetch net (req_method request) (url request) [] w of
        (Some networkResponse, w1) \<Rightarrow>
          (if status networkResponse = 200 \<and> req_method request = ''GET''
           then (Inr networkResponse,
                 snd (cache_put DYNAMIC_CACHE (protocol request) (req_method request) (url request)
                        networkResponse (caches_open DYNAMIC_CACHE w1)))
           else (Inr networkResponse, w1))
      | (None, w1) \<Rightarrow>
          (if req_method request = ''GET''
           then (case caches_match (req_method request) (url request) w1 of
                   (Some cachedResponse, w2) \<Rightarrow> (Inr cachedResponse, w2)
                 | (None, w2) \<Rightarrow> (Inr offline_api_response, w2))
           else (Inr offline_api_response, w1)))"

definition handleAssetRequest :: "network \<Rightarrow> request \<Rightarrow> world \<Rightarrow> (fetch_error + response) \<times> world" where
  "handleAssetRequest net request w =
     (case caches_match (req_method request) (url request) w of
        (Some cachedResponse, w1) \<Rightarrow> (Inr cachedResponse, w1)
      | (None, w1) \<Rightarrow>
          (case fetch net (req_method request) (url request) [] w1 of
             (Some networkResponse, w2) \<Rightarrow>
               (if status networkResponse = 200
                then (Inr networkResponse,
                      snd (cache_put DYNAMIC_CACHE (protocol request) (req_method request) (url request)
                        networkResponse (caches_open DYNAMIC_CACHE w2)))
                else (Inr networkResponse, w2))
           | (None, w2) \<Rightarrow> (Inl NetworkError, w2)))"

subsection \<open>The \<^verbatim>\<open>fetch\<close> listener\<close>

datatype outcome = PassThrough | RespondWith "fetch_error + response"

definition on_fetch :: "network \<Rightarrow> request \<Rightarrow> world \<Rightarrow> outcome \<times> world" where
  "on_fetch net request w =
     (case fetch_route request of
        None \<Rightarrow> (PassThrough, w)
      | Some Page \<Rightarrow> (case handlePageRequest net request w of (r, w') \<Rightarrow> (RespondWith r, w'))
      | Some Image \<Rightarrow> (case handleOptimizedImageRequest net request w of (r, w') \<Rightarrow> (RespondWith r, w'))
      | Some API \<Rightarrow> (case handleAPIRequest net request w of (r, w') \<Rightarrow> (RespondWith r, w'))
      | Some Asset \<Rightarrow> (case handleAssetRequest net request w of (r, w') \<Rightarrow> (RespondWith r, w')))"

subsection \<open>\<^verbatim>\<open>cache.addAll\<close> and \<^verbatim>\<open>cache.add\<close>\<close>

text \<open>A URL given as a string (\<^verbatim>\<open>'/App.tsx'\<close>) becomes a request for the URL resolved against
  the worker's location, and that absolute URL is what is fetched and what keys the entry, as
  \<^verbatim>\<open>request.url\<close> keys the entries the handlers write. \<open>resolve\<close> is the host's
  resolution against the worker's location and \<open>url_protocol\<close> the scheme its URL parser
  gives an absolute URL.

  \<^verbatim>\<open>addAll\<close> fetches every URL with GET and writes all the entries or none: it rejects
  when a URL is not http(s), when a fetch fails, when a response is not ok, has status 206 or
  varies on \<^verbatim>\<open>*\<close>, and when two of the strings resolve to the same URL. \<open>add_allowed\<close>
  and \<open>add_entry\<close> take the resolved URL.\<close>

definition cacheable :: "response \<Rightarrow> bool" where
  "cacheable r = (response_ok r \<and> status r \<noteq> 206 \<and> \<not> vary_star r)"

definition add_allowed :: "network \<Rightarrow> (string \<Rightarrow> string) \<Rightarrow> string \<Rightarrow> bool" where
  "add_allowed net url_protocol href =
     ((url_protocol href = ''http:'' \<or> url_protocol href = ''https:'') \<and>
      (case net ''GET'' href [] of None \<Rightarrow> False | Some r \<Rightarrow> cacheable r))"

definition add_entry :: "network \<Rightarrow> string \<Rightarrow> string \<Rightarrow> world \<Rightarrow> world" where
  "add_entry net name href w =
     (case net ''GET'' href [] of
        None \<Rightarrow> w
      | Some r \<Rightarrow> emit (CachePut name href) (update_cache name (entry_put href r) w))"

definition cache_addAll ::
  "network \<Rightarrow> (string \<Rightarrow> string) \<Rightarrow> (string \<Rightarrow> string) \<Rightarrow> string \<Rightarrow> string list \<Rightarrow> world \<Rightarrow>
     bool \<times> world" where
  "cache_addAll net url_protocol resolve name urls w =
     (let hrefs = map resolve urls;
          w1 = fold (\<lambda>href. emit (Fetch ''GET'' href)) hrefs w
      in if distinct hrefs \<and> list_all (add_allowed net url_protocol) hrefs
         then (True, fold (add_entry net name) hrefs w1)
         else (False, w1))"

definition cache_add ::
  "network \<Rightarrow> (string \<Rightarrow> string) \<Rightarrow> (string \<Rightarrow> string) \<Rightarrow> string \<Rightarrow> string \<Rightarrow> world \<Rightarrow>
     bool \<times> world" where
  "cache_add net url_protocol resolve name u w = cache_addAll net url_protocol resolve name [u] w"

subsection \<open>Lifecycle: \<^verbatim>\<open>install\<close> and \<^verbatim>\<open>activate\<close>\<close>

text \<open>Both partitions are opened before the manifest is fetched; \<^verbatim>\<open>skipWaiting\<close> runs
  when both branches of the \<^verbatim>\<open>Promise.all\<close> fulfilled, and the \<^verbatim>\<open>catch\<close> logs
  the rejection of \<^verbatim>\<open>addAll\<close> otherwise.\<close>

definition on_install ::
  "network \<Rightarrow> (string \<Rightarrow> string) \<Rightarrow> (string \<Rightarrow> string) \<Rightarrow> world \<Rightarrow> world" where
  "on_install net url_protocol resolve w =
     (case cache_addAll net url_protocol resolve STATIC_CACHE STATIC_ASSETS
             (caches_open IMAGE_CACHE_NAME (caches_open STATIC_CACHE w)) of
        (True, w1) \<Rightarrow> emit SkipWaiting w1
      | (False, w1) \<Rightarrow> emit ConsoleError w1)"

definition delete_old_cache :: "string \<Rightarrow> world \<Rightarrow> world" where
  "delete_old_cache cacheName w =
     (if cacheName \<noteq> STATIC_CACHE \<and> cacheName \<noteq> DYNAMIC_CACHE \<and> cacheName \<noteq> IMAGE_CACHE_NAME
      then caches_delete cacheName w
      else w)"

definition on_activate :: "world \<Rightarrow> world" where
  "on_activate w =
     (case caches_keys w of
        (cacheNames, w1) \<Rightarrow> emit ClientsClaim (fold delete_old_cache cacheNames w1))"

subsection \<open>Background sync\<close>

text \<open>\<open>parse_date\<close> is \<^verbatim>\<open>new Date(s).getTime()\<close>, \<open>None\<close> for NaN (every comparison
  with NaN is false). \<open>now i\<close> is the value of the \<open>i\<close>-th call of \<^verbatim>\<open>Date.now()\<close>
  in the run. The keys of a cache are GET requests.\<close>

definition week_ms :: int where
  "week_ms = 7 * 24 * 60 * 60 * 1000"

fun sweep :: "(string \<Rightarrow> int option) \<Rightarrow> int \<Rightarrow> string list \<Rightarrow> world \<Rightarrow> world" where
  "sweep parse_date oneWeekAgo [] w = w"
| "sweep parse_date oneWeekAgo (u # us) w =
     (case cache_match IMAGE_CACHE_NAME ''GET'' u w of
        (None, w1) \<Rightarrow> sweep parse_date oneWeekAgo us w1
      | (Some response, w1) \<Rightarrow>
          (case headers_get ''date'' (headers response) of
             None \<Rightarrow> sweep parse_date oneWeekAgo us w1
           | Some dateHeader \<Rightarrow>
               (if dateHeader \<noteq> [] \<and>
                   (case parse_date dateHeader of None \<Rightarrow> False | Some t \<Rightarrow> t < oneWeekAgo)
                then sweep parse_date oneWeekAgo us (cache_delete IMAGE_CACHE_NAME u w1)
                else sweep parse_date oneWeekAgo us w1)))"

fun notify_clients :: "(nat \<Rightarrow> int) \<Rightarrow> nat \<Rightarrow> nat list \<Rightarrow> world \<Rightarrow> world" where
  "notify_clients now i [] w = w"
| "notify_clients now i (client # cs) w =
     notify_clients now (Suc i) cs (emit (ClientPost client (SYNC_COMPLETE (now i))) w)"

definition doBackgroundSync :: "(string \<Rightarrow> int option) \<Rightarrow> (nat \<Rightarrow> int) \<Rightarrow> world \<Rightarrow> world" where
  "doBackgroundSync parse_date now w =
     (case cache_keys IMAGE_CACHE_NAME (caches_open IMAGE_CACHE_NAME w) of
        (requests, w1) \<Rightarrow>
          (let oneWeekAgo = now 0 - week_ms;
               w2 = sweep parse_date oneWeekAgo requests w1
           in notify_clients now 1 (clients w2) (emit ClientsMatchAll w2)))"

definition on_sync :: "(string \<Rightarrow> int option) \<Rightarrow> (nat \<Rightarrow> int) \<Rightarrow> string \<Rightarrow> world \<Rightarrow> world" where
  "on_sync parse_date now tag w =
     (if tag = ''background-sync'' then doBackgroundSync parse_date now w else w)"

subsection \<open>Messages from the page\<close>

record message_payload =
  payload_url :: "string option"
  payload_urls :: "string list option"

record message_event =
  msg_type :: string
  payload :: "message_payload option"
  ports :: "nat list"

text \<open>\<^verbatim>\<open>event.ports[0].postMessage\<close>: without a port the property access throws inside the
  promise callback.\<close>

definition port_post :: "nat list \<Rightarrow> port_message \<Rightarrow> world \<Rightarrow> world" where
  "port_post ps m w =
     (case ps of [] \<Rightarrow> emit UnhandledRejection w | p # _ \<Rightarrow> emit (PortPost p m) w)"

text \<open>\<^verbatim>\<open>fetch(url)\<close> and \<^verbatim>\<open>cache.put(url, response)\<close> of the preload: both make a GET
  request for the resolved URL.\<close>

definition preload_image ::
  "network \<Rightarrow> (string \<Rightarrow> string) \<Rightarrow> (string \<Rightarrow> string) \<Rightarrow> string \<Rightarrow> world \<Rightarrow> world" where
  "preload_image net url_protocol resolve u w =
     (case fetch net ''GET'' (resolve u) [] w of
        (None, w1) \<Rightarrow> w1
      | (Some response, w1) \<Rightarrow>
          (if status response = 200
           then snd (cache_put IMAGE_CACHE_NAME (url_protocol (resolve u)) ''GET'' (resolve u)
                       response w1)
           else w1))"

definition on_message ::
  "network \<Rightarrow> (string \<Rightarrow> string) \<Rightarrow> (string \<Rightarrow> string) \<Rightarrow> message_event \<Rightarrow> world \<Rightarrow> world" where
  "on_message net url_protocol resolve event w =
     (if msg_type event = ''SKIP_WAITING'' then emit SkipWaiting w
      else if msg_type event = ''CACHE_RECIPE'' then
        (case payload event of
           None \<Rightarrow> w
         | Some p \<Rightarrow>
             (case payload_url p of
                None \<Rightarrow> w
              | Some u \<Rightarrow>
                  (if u = [] then w
                   else snd (cache_add net url_protocol resolve DYNAMIC_CACHE u
                               (caches_open DYNAMIC_CACHE w)))))
      else if msg_type event = ''PRELOAD_IMAGES'' then
        (case payload event of
           None \<Rightarrow> w
         | Some p \<Rightarrow>
             (case payload_urls p of
                None \<Rightarrow> w
              | Some urls \<Rightarrow>
                  fold (preload_image net url_protocol resolve) urls (caches_open IMAGE_CACHE_NAME w)))
      else if msg_type event = ''CLEAR_CACHE'' then
        port_post (ports event) (Success True)
          (caches_delete IMAGE_CACHE_NAME (caches_delete DYNAMIC_CACHE w))
      else if msg_type event = ''GET_CACHE_SIZE'' then
        (case cache_keys DYNAMIC_CACHE (caches_open IMAGE_CACHE_NAME (caches_open DYNAMIC_CACHE w)) of
           (dynamicKeys, w1) \<Rightarrow>
             (case cache_keys IMAGE_CACHE_NAME w1 of
                (imageKeys, w2) \<Rightarrow>
                  port_post (ports event)
                    (CacheSize (length dynamicKeys) (length imageKeys)
                       (length dynamicKeys + length imageKeys)) w2))
      else w)"

subsection \<open>Properties the claims speak of\<close>

text \<open>No partition holds an entry for the URL.\<close>

definition uncached :: "string \<Rightarrow> world \<Rightarrow> bool" where
  "uncached u w = list_all (\<lambda>c. map_of (snd c) u = None) (caches w)"

text \<open>The response carries a \<^verbatim>\<open>date\<close> header whose time lies before the bound.\<close>

definition date_older_than :: "(string \<Rightarrow> int option) \<Rightarrow> int \<Rightarrow> response \<Rightarrow> bool" where
  "date_older_than parse_date bound r =
     (case headers_get ''date'' (headers r) of
        None \<Rightarrow> False
      | Some v \<Rightarrow> (case parse_date v of None \<Rightarrow> False | Some t \<Rightarrow> t < bound))"

definition current_caches :: "string list" where
  "current_caches = [STATIC_CACHE, DYNAMIC_CACHE, IMAGE_CACHE_NAME]"

text \<open>The test of the \<^verbatim>\<open>if\<close> in the loop of the sweep.\<close>

definition expired :: "(string \<Rightarrow> int option) \<Rightarrow> int \<Rightarrow> response \<Rightarrow> bool" where
  "expired parse_date oneWeekAgo response =
     (case headers_get ''date'' (headers response) of
        None \<Rightarrow> False
      | Some dateHeader \<Rightarrow>
          dateHeader \<noteq> [] \<and> (case parse_date dateHeader of None \<Rightarrow> False | Some t \<Rightarrow> t < oneWeekAgo))"

text \<open>Within every partition a URL has at most one entry, as in a \<^verbatim>\<open>Cache\<close>.\<close>

definition keys_distinct :: "world \<Rightarrow> bool" where
  "keys_distinct w = list_all (\<lambda>p. distinct (map fst (snd p))) (caches w)"

text \<open>The manifest as \<^verbatim>\<open>addAll\<close> requests it, and the condition on which \<^verbatim>\<open>addAll\<close>
  fulfils, that is, on which the \<^verbatim>\<open>install\<close> handler reaches \<^verbatim>\<open>skipWaiting\<close> and
  not its \<^verbatim>\<open>catch\<close>.\<close>

definition manifest_urls :: "(string \<Rightarrow> string) \<Rightarrow> string list" where
  "manifest_urls resolve = map resolve STATIC_ASSETS"

definition install_succeeds :: "network \<Rightarrow> (string \<Rightarrow> string) \<Rightarrow> (string \<Rightarrow> string) \<Rightarrow> bool" where
  "install_succeeds net url_protocol resolve =
     (distinct (manifest_urls resolve) \<and>
      list_all (add_allowed net url_protocol) (manifest_urls resolve))"

text \<open>The worlds of the worker: it starts on an empty cache storage, and each event runs one of
  its five listeners, on any network, request, message and clock. The worker's location, and so
  the resolution of URL strings, is the same throughout.\<close>

inductive reachable :: "(string \<Rightarrow> string) \<Rightarrow> world \<Rightarrow> bool"
  for resolve :: "string \<Rightarrow> string" where
  initial: "caches w = [] \<Longrightarrow> reachable resolve w"
| install: "reachable resolve w \<Longrightarrow> reachable resolve (on_install net url_protocol resolve w)"
| activate: "reachable resolve w \<Longrightarrow> reachable resolve (on_activate w)"
| fetched: "reachable resolve w \<Longrightarrow> reachable resolve (snd (on_fetch net request w))"
| synced: "reachable resolve w \<Longrightarrow> reachable resolve (on_sync parse_date now tag w)"
| message: "reachable resolve w \<Longrightarrow> reachable resolve (on_message net url_protocol resolve event w)"

code_pred reachable .

subsection \<open>Sample inputs\<close>

definition empty_world :: world where
  "empty_world = \<lparr>caches = [], clients = [], trace = []\<rparr>"

definition offline_network :: network where
  "offline_network = (\<lambda>m u hs. None)"

definition api_request :: request where
  "api_request =
     \<lparr>req_method = ''GET'', url = ''https://acwhisk.app/api/recipes'', protocol = ''https:'',
      hostname = ''acwhisk.app'', pathname = ''/api/recipes'', destination = []\<rparr>"

definition page_request :: request where
  "page_request =
     \<lparr>req_method = ''GET'', url = ''https://acwhisk.app/recipes'', protocol = ''https:'',
      hostname = ''acwhisk.app'', pathname = ''/recipes'', destination = ''document''\<rparr>"

definition image_request :: request where
  "image_request =
     \<lparr>req_method = ''GET'', url = ''https://acwhisk.app/recipes.jpg'', protocol = ''https:'',
      hostname = ''acwhisk.app'', pathname = ''/recipes.jpg'', destination = ''image''\<rparr>"

definition post_request :: request where
  "post_request =
     \<lparr>req_method = ''POST'', url = ''https://acwhisk.app/api/recipes'', protocol = ''https:'',
      hostname = ''acwhisk.app'', pathname = ''/api/recipes'', destination = []\<rparr>"

definition chrome_extension_request :: request where
  "chrome_extension_request =
     \<lparr>req_method = ''GET'', url = ''chrome-extension://abcdefgh/icon.png'', protocol = ''chrome-extension:'',
      hostname = ''abcdefgh'', pathname = ''/icon.png'', destination = ''image''\<rparr>"

definition moz_extension_request :: request where
  "moz_extension_request =
     \<lparr>req_method = ''GET'', url = ''moz-extension://abcdefgh/icon.png'', protocol = ''moz-extension:'',
      hostname = ''abcdefgh'', pathname = ''/icon.png'', destination = ''image''\<rparr>"

definition sample_response :: response where
  "sample_response =
     \<lparr>status = 200, statusText = ''OK'',
      headers = [(''content-type'', ''text/html''), (''date'', ''Mon, 02 Nov 2026 10:00:00 GMT'')],
      body = ''<html></html>''\<rparr>"

definition stale_world :: world where
  "stale_world =
     \<lparr>caches = [(''acwhisk-static-v1.0.2'', [(''https://acwhisk.app/'', sample_response)]),
                (STATIC_CACHE, [(''https://acwhisk.app/'', sample_response)]),
                (CACHE_NAME, []),
                (DYNAMIC_CACHE, [])],
      clients = [1, 2],
      trace = []\<rparr>"

definition populated_world :: world where
  "populated_world =
     \<lparr>caches = [(STATIC_CACHE, [(''https://acwhisk.app/'', sample_response)]),
                (DYNAMIC_CACHE, [(''https://acwhisk.app/api/recipes'', sample_response)]),
                (IMAGE_CACHE_NAME, [(''https://acwhisk.app/recipes.jpg'', sample_response),
                                    (''https://acwhisk.app/logo.png'', sample_response)])],
      clients = [1],
      trace = []\<rparr>"

definition clear_cache_event :: message_event where
  "clear_cache_event = \<lparr>msg_type = ''CLEAR_CACHE'', payload = None, ports = [7]\<rparr>"

definition get_cache_size_event :: message_event where
  "get_cache_size_event = \<lparr>msg_type = ''GET_CACHE_SIZE'', payload = None, ports = [8]\<rparr>"

definition serving_network :: network where
  "serving_network = (\<lambda>m u hs. Some sample_response)"

definition https_only :: "string \<Rightarrow> string" where
  "https_only = (\<lambda>u. ''https:'')"

definition sample_resolve :: "string \<Rightarrow> string" where
  "sample_resolve u = (if prefix ''/'' u then ''https://acwhisk.app'' @ u else u)"

definition aged_response :: response where
  "aged_response =
     \<lparr>status = 200, statusText = ''OK'',
      headers = [(''content-type'', ''image/jpeg''), (''date'', ''Thu, 01 Oct 2026 00:00:00 GMT'')],
      body = ''old''\<rparr>"

definition fresh_response :: response where
  "fresh_response =
     \<lparr>status = 200, statusText = ''OK'',
      headers = [(''content-type'', ''image/jpeg''), (''date'', ''Sun, 01 Nov 2026 00:00:00 GMT'')],
      body = ''new''\<rparr>"

definition undated_response :: response where
  "undated_response =
     \<lparr>status = 200, statusText = ''OK'', headers = [(''content-type'', ''image/png'')], body = ''logo''\<rparr>"

definition sample_parse_date :: "string \<Rightarrow> int option" where
  "sample_parse_date s =
     (if s = ''Thu, 01 Oct 2026 00:00:00 GMT'' then Some 1790812800000
      else if s = ''Sun, 01 Nov 2026 00:00:00 GMT'' then Some 1793491200000
      else None)"

definition sample_clock :: "nat \<Rightarrow> int" where
  "sample_clock i = 1793617080000 + int i"

definition aged_world :: world where
  "aged_world =
     \<lparr>caches = [(IMAGE_CACHE_NAME,
                  [(''https://acwhisk.app/old.jpg'', aged_response),
                   (''https://acwhisk.app/new.jpg'', fresh_response),
                   (''https://acwhisk.app/logo.png'', undated_response)])],
      clients = [1, 2],
      trace = []\<rparr>"

definition image_network :: network where
  "image_network = (\<lambda>m u hs. Some fresh_response)"

section \<open>Verification\<close>

subsection \<open>Facts about the host model\<close>

lemmas prim_defs = emit_def fetch_def caches_open_def caches_delete_def caches_keys_def
  caches_match_def cache_match_def cache_keys_def cache_put_def cache_delete_def

lemma first_match_uncached:
  "list_all (\<lambda>c. map_of (snd c) u = None) cs \<Longrightarrow> first_match u (map snd cs) = None"
  by (induction cs) auto

lemma sublist_join: "x \<in> set xs \<Longrightarrow> sublist x (join sep xs)"
proof (induction sep xs rule: join.induct)
  case (3 sep x' y ys)
  show ?case
  proof (cases "x = x'")
    case True
    then show ?thesis by (simp add: sublist_append_rightI)
  next
    case False
    with 3 have "sublist x (join sep (y # ys))" by simp
    then obtain ps ss where "join sep (y # ys) = ps @ x @ ss" by (auto simp: sublist_def)
    then have "join sep (x' # y # ys) = (x' @ sep @ ps) @ x @ ss" by simp
    then show ?thesis unfolding sublist_def by blast
  qed
qed simp_all

lemma map_of_snoc:
  "map_of (cs @ [(n, v)]) m =
     (case map_of cs m of Some c \<Rightarrow> Some c | None \<Rightarrow> if m = n then Some v else None)"
  by (induction cs) auto

lemma the_cache_caches_open: "the_cache n (caches_open m w) = the_cache n w"
  by (auto simp: the_cache_def caches_open_def emit_def map_of_snoc split: option.splits if_splits)

lemma the_cache_emit: "the_cache n (emit e w) = the_cache n w"
  by (simp add: the_cache_def emit_def)

lemma cache_match_open:
  "fst (cache_match n m u (caches_open n' w)) = (if m = ''GET'' then map_of (the_cache n w) u else None)"
  by (simp add: cache_match_def the_cache_caches_open)

subsection \<open>The synthesized responses\<close>

lemma offline_api_status: "status offline_api_response = 503"
  by (simp add: offline_api_response_def new_Response_def Let_def)

lemma offline_api_body: "body offline_api_response = JSON_stringify offline_error"
  by (simp add: offline_api_response_def new_Response_def Let_def)

lemma offline_error_text:
  \<open>JSON_stringify offline_error =
     ''{"error":"Network unavailable","message":"This request failed because you are offline. '' @
     ''Please try again when you have an internet connection.","offline":true}''\<close>
  by (simp add: JSON_stringify_def offline_error_def json_quote_def json_escape_char_def)

lemma offline_page_status: "status offline_page = 200"
  by (simp add: offline_page_def new_Response_def Let_def)

lemma offline_page_body: "sublist ''Offline'' (body offline_page)"
proof -
  have "sublist ''Offline'' ''              <h1>ACWhisk - Offline</h1>''"
    by (simp add: sublist_code)
  moreover have "sublist ''              <h1>ACWhisk - Offline</h1>'' (join newline offline_page_lines)"
    by (rule sublist_join) (simp add: offline_page_lines_def)
  ultimately have "sublist ''Offline'' (join newline offline_page_lines)"
    by (rule sublist_order.order.trans)
  then show ?thesis by (simp add: offline_page_def new_Response_def Let_def)
qed

lemma placeholder_status: "status placeholder_image = 200"
  by (simp add: placeholder_image_def new_Response_def Let_def)

lemma placeholder_headers:
  "headers placeholder_image = [(''content-type'', ''image/svg+xml''), (''cache-control'', ''no-cache'')]"
  by (simp add: placeholder_image_def new_Response_def Let_def headers_from_object_def headers_get_def
      to_lower_def to_lower_char_def)

lemma placeholder_content_type:
  "headers_get ''Content-Type'' (headers placeholder_image) = Some ''image/svg+xml''"
  by (simp add: placeholder_headers headers_get_def to_lower_def to_lower_char_def)

lemma placeholder_cache_control:
  "headers_get ''Cache-Control'' (headers placeholder_image) = Some ''no-cache''"
  by (simp add: placeholder_headers headers_get_def to_lower_def to_lower_char_def)

subsection \<open>What the listener dispatches\<close>

text \<open>The listener leaves a request alone in three cases and no other; otherwise the response
  is the one of the handler it chose.\<close>

lemma fetch_route_None_iff:
  "fetch_route r = None \<longleftrightarrow>
     req_method r \<noteq> ''GET'' \<or> protocol r = ''chrome-extension:'' \<or>
     (str_includes (hostname r) ''supabase.co'' \<and> str_includes (pathname r) ''/auth/'')"
  by (simp add: fetch_route_def)

lemma fetch_route_API: "fetch_route r = Some API \<Longrightarrow> isAPIRequest r \<and> req_method r = ''GET''"
  by (simp add: fetch_route_def split: if_splits)

lemma on_fetch_Page:
  "fetch_route r = Some Page \<Longrightarrow> fst (on_fetch net r w) = RespondWith (fst (handlePageRequest net r w))"
  by (simp add: on_fetch_def split: prod.splits)

lemma on_fetch_Image:
  "fetch_route r = Some Image \<Longrightarrow>
   fst (on_fetch net r w) = RespondWith (fst (handleOptimizedImageRequest net r w))"
  by (simp add: on_fetch_def split: prod.splits)

lemma on_fetch_API:
  "fetch_route r = Some API \<Longrightarrow> fst (on_fetch net r w) = RespondWith (fst (handleAPIRequest net r w))"
  by (simp add: on_fetch_def split: prod.splits)

lemma on_fetch_Asset:
  "fetch_route r = Some Asset \<Longrightarrow> fst (on_fetch net r w) = RespondWith (fst (handleAssetRequest net r w))"
  by (simp add: on_fetch_def split: prod.splits)

subsection \<open>Offline fallbacks of the handlers\<close>

text \<open>
  C1. When the network fetch of a request fails and no partition holds an entry for it,
  \<open>handleAPIRequest\<close> returns the response of status 503 whose body is the JSON text of an
  object with the field \<open>offline\<close> set to true. The handler does not look at the path, so this
  holds in particular for every request whose path matches an API route pattern.
\<close>

theorem api_offline_signal:
  assumes "net (req_method request) (url request) [] = None"
    and "uncached (url request) w"
  shows "fst (handleAPIRequest net request w) = Inr offline_api_response \<and>
         status offline_api_response = 503 \<and>
         body offline_api_response = JSON_stringify offline_error \<and>
         map_of offline_error ''offline'' = Some (JBool True)"
proof -
  have "fst (handleAPIRequest net request w) = Inr offline_api_response"
    using assms by (auto simp: handleAPIRequest_def prim_defs uncached_def first_match_uncached)
  moreover have "map_of offline_error ''offline'' = Some (JBool True)"
    by (simp add: offline_error_def)
  ultimately show ?thesis
    by (simp add: offline_api_status offline_api_body)
qed

theorem api_offline_signal_witness:
  "isAPIRequest api_request \<and>
   offline_network (req_method api_request) (url api_request) [] = None \<and>
   uncached (url api_request) empty_world \<and>
   fst (handleAPIRequest offline_network api_request empty_world) = Inr offline_api_response \<and>
   status offline_api_response = 503 \<and>
   body offline_api_response = JSON_stringify offline_error \<and>
   map_of offline_error ''offline'' = Some (JBool True)"
proof -
  have api: "isAPIRequest api_request"
    by (simp add: isAPIRequest_def api_request_def API_CACHE_PATTERNS_def str_includes_def sublist_code)
  have net: "offline_network (req_method api_request) (url api_request) [] = None"
    by (simp add: offline_network_def)
  have miss: "uncached (url api_request) empty_world"
    by (simp add: uncached_def empty_world_def)
  show ?thesis
    using api net miss api_offline_signal [of offline_network api_request empty_world] by simp
qed

text \<open>
  C2. When the network fetch of a request fails and no partition holds an entry for it,
  \<open>handlePageRequest\<close> returns the synthesized page: status 200, and a body that
  contains the text \<open>Offline\<close>.
\<close>

theorem page_offline_fallback:
  assumes "net (req_method request) (url request) [] = None"
    and "uncached (url request) w"
  shows "fst (handlePageRequest net request w) = Inr offline_page \<and>
         status offline_page = 200 \<and>
         sublist ''Offline'' (body offline_page)"
proof -
  have "fst (handlePageRequest net request w) = Inr offline_page"
    using assms by (auto simp: handlePageRequest_def prim_defs uncached_def first_match_uncached)
  then show ?thesis
    by (simp add: offline_page_status offline_page_body)
qed

theorem page_offline_fallback_witness:
  "fetch_route page_request = Some Page \<and>
   offline_network (req_method page_request) (url page_request) [] = None \<and>
   uncached (url page_request) empty_world \<and>
   fst (handlePageRequest offline_network page_request empty_world) = Inr offline_page \<and>
   status offline_page = 200 \<and>
   sublist ''Offline'' (body offline_page)"
proof -
  have route: "fetch_route page_request = Some Page"
    by (simp add: fetch_route_def page_request_def str_includes_def sublist_code)
  have net: "offline_network (req_method page_request) (url page_request) [] = None"
    by (simp add: offline_network_def)
  have miss: "uncached (url page_request) empty_world"
    by (simp add: uncached_def empty_world_def)
  show ?thesis
    using route net miss page_offline_fallback [of offline_network page_request empty_world] by simp
qed

lemma image_fallback_miss:
  "map_of (the_cache IMAGE_CACHE_NAME w) (url request) = None \<Longrightarrow>
   fst (image_fallback request w) = Inr placeholder_image"
  using cache_match_open [of IMAGE_CACHE_NAME "req_method request" "url request" IMAGE_CACHE_NAME w]
  by (auto simp: image_fallback_def split: prod.splits option.splits if_splits)

text \<open>
  C3. When the network fetch of the image handler fails and the image partition holds no entry
  for the request, \<open>handleOptimizedImageRequest\<close> returns the placeholder: status 200 (the
  default of the \<^verbatim>\<open>Response\<close> constructor), content type \<^verbatim>\<open>image/svg+xml\<close>, and
  \<^verbatim>\<open>Cache-Control: no-cache\<close>.
\<close>

theorem image_placeholder_fallback:
  assumes "net (req_method request) (url request)
              [(''Cache-Control'', ''public, max-age=86400''),
               (''Accept'', ''image/webp,image/avif,image/*,*/*;q=0.8'')] = None"
    and "map_of (the_cache IMAGE_CACHE_NAME w) (url request) = None"
  shows "fst (handleOptimizedImageRequest net request w) = Inr placeholder_image \<and>
         status placeholder_image = 200 \<and>
         headers_get ''Content-Type'' (headers placeholder_image) = Some ''image/svg+xml'' \<and>
         headers_get ''Cache-Control'' (headers placeholder_image) = Some ''no-cache''"
proof -
  let ?w1 = "snd (cache_match IMAGE_CACHE_NAME (req_method request) (url request)
                    (caches_open IMAGE_CACHE_NAME w))"
  have miss: "fst (cache_match IMAGE_CACHE_NAME (req_method request) (url request)
                     (caches_open IMAGE_CACHE_NAME w)) = None"
    using assms(2) by (simp add: cache_match_open)
  have "the_cache IMAGE_CACHE_NAME (emit e ?w1) = the_cache IMAGE_CACHE_NAME w" for e
    by (simp add: cache_match_def the_cache_emit the_cache_caches_open)
  then have "fst (image_fallback request (emit e ?w1)) = Inr placeholder_image" for e
    using assms(2) by (simp add: image_fallback_miss)
  then have "fst (handleOptimizedImageRequest net request w) = Inr placeholder_image"
    using miss assms(1)
    by (auto simp: handleOptimizedImageRequest_def fetch_def split: prod.splits option.splits)
  then show ?thesis
    by (simp add: placeholder_status placeholder_content_type placeholder_cache_control)
qed

theorem image_placeholder_fallback_witness:
  "fetch_route image_request = Some Image \<and>
   offline_network (req_method image_request) (url image_request)
      [(''Cache-Control'', ''public, max-age=86400''),
       (''Accept'', ''image/webp,image/avif,image/*,*/*;q=0.8'')] = None \<and>
   map_of (the_cache IMAGE_CACHE_NAME empty_world) (url image_request) = None \<and>
   fst (handleOptimizedImageRequest offline_network image_request empty_world) = Inr placeholder_image \<and>
   status placeholder_image = 200 \<and>
   headers_get ''Content-Type'' (headers placeholder_image) = Some ''image/svg+xml'' \<and>
   headers_get ''Cache-Control'' (headers placeholder_image) = Some ''no-cache''"
proof -
  have route: "fetch_route image_request = Some Image"
    by (simp add: fetch_route_def image_request_def str_includes_def sublist_code)
  have miss: "map_of (the_cache IMAGE_CACHE_NAME empty_world) (url image_request) = None"
    by (simp add: the_cache_def empty_world_def)
  show ?thesis
    using route miss image_placeholder_fallback [of offline_network image_request empty_world]
    by (simp add: offline_network_def)
qed

subsection \<open>Requests the listener leaves alone\<close>

text \<open>
  C5. For a request whose method is not GET the \<^verbatim>\<open>fetch\<close> listener returns without
  choosing a strategy, and the world is as before: the partitions are unchanged and the trace has
  no new effect, so no partition was read or written.
\<close>

theorem non_get_bypass:
  assumes "req_method request \<noteq> ''GET''"
  shows "fetch_route request = None \<and> on_fetch net request w = (PassThrough, w)"
  using assms by (simp add: on_fetch_def fetch_route_def)

theorem non_get_bypass_witness:
  "req_method post_request \<noteq> ''GET'' \<and>
   fetch_route post_request = None \<and>
   on_fetch offline_network post_request empty_world = (PassThrough, empty_world)"
  using non_get_bypass [of post_request offline_network empty_world] by (simp add: post_request_def)

text \<open>
  C4, as stated, fails: the listener compares the scheme with \<^verbatim>\<open>chrome-extension:\<close> only.
  A GET request for an image under the scheme \<^verbatim>\<open>moz-extension:\<close> is given to the image
  handler, which opens and reads the image partition.
\<close>

theorem non_http_scheme_counterexample:
  "protocol moz_extension_request \<noteq> ''http:'' \<and>
   protocol moz_extension_request \<noteq> ''https:'' \<and>
   fetch_route moz_extension_request = Some Image \<and>
   on_fetch offline_network moz_extension_request empty_world =
     (RespondWith (Inr placeholder_image),
      \<lparr>caches = [(IMAGE_CACHE_NAME, [])],
       clients = [],
       trace = [CachesOpen IMAGE_CACHE_NAME,
                CacheMatch IMAGE_CACHE_NAME ''moz-extension://abcdefgh/icon.png'',
                Fetch ''GET'' ''moz-extension://abcdefgh/icon.png'',
                CachesOpen IMAGE_CACHE_NAME,
                CacheMatch IMAGE_CACHE_NAME ''moz-extension://abcdefgh/icon.png'']\<rparr>)"
  by (simp add: on_fetch_def fetch_route_def moz_extension_request_def empty_world_def
      offline_network_def handleOptimizedImageRequest_def image_fallback_def prim_defs the_cache_def
      IMAGE_CACHE_NAME_def str_includes_def sublist_code)

text \<open>
  C4, amended. For a request whose URL scheme is \<^verbatim>\<open>chrome-extension:\<close> the listener
  returns without choosing a strategy and the world is as before: no handler runs, and no
  partition is read or written.
\<close>

theorem chrome_extension_bypass:
  assumes "protocol request = ''chrome-extension:''"
  shows "fetch_route request = None \<and> on_fetch net request w = (PassThrough, w)"
  using assms by (simp add: on_fetch_def fetch_route_def)

theorem chrome_extension_bypass_witness:
  "protocol chrome_extension_request = ''chrome-extension:'' \<and>
   fetch_route chrome_extension_request = None \<and>
   on_fetch offline_network chrome_extension_request empty_world = (PassThrough, empty_world)"
  using chrome_extension_bypass [of chrome_extension_request offline_network empty_world]
  by (simp add: chrome_extension_request_def)

subsection \<open>Activation\<close>

lemma delete_old_cache_eq:
  "delete_old_cache n w = (if n \<in> set current_caches then w else caches_delete n w)"
  by (auto simp: delete_old_cache_def current_caches_def)

lemma fold_delete_old_cache_caches:
  "caches (fold delete_old_cache ns w) =
     filter (\<lambda>p. fst p \<in> set current_caches \<or> fst p \<notin> set ns) (caches w)"
proof (induction ns arbitrary: w)
  case Nil
  show ?case by simp
next
  case (Cons n ns)
  have "caches (fold delete_old_cache (n # ns) w) =
      filter (\<lambda>p. fst p \<in> set current_caches \<or> fst p \<notin> set ns) (caches (delete_old_cache n w))"
    by (simp add: Cons)
  also have "\<dots> = filter (\<lambda>p. fst p \<in> set current_caches \<or> fst p \<notin> set (n # ns)) (caches w)"
    by (auto simp: delete_old_cache_eq caches_delete_def emit_def intro: filter_cong)
  finally show ?case .
qed

lemma fold_delete_old_cache_trace:
  "trace (fold delete_old_cache ns w) =
     trace w @ map CachesDelete (filter (\<lambda>n. n \<notin> set current_caches) ns)"
proof (induction ns arbitrary: w)
  case Nil
  show ?case by simp
next
  case (Cons n ns)
  have "trace (fold delete_old_cache (n # ns) w) =
      trace (delete_old_cache n w) @ map CachesDelete (filter (\<lambda>n. n \<notin> set current_caches) ns)"
    by (simp add: Cons)
  also have "\<dots> = trace w @ map CachesDelete (filter (\<lambda>n. n \<notin> set current_caches) (n # ns))"
    by (simp add: delete_old_cache_eq caches_delete_def emit_def)
  finally show ?case .
qed

lemma delete_old_cache_clients: "clients (delete_old_cache n w) = clients w"
  by (simp add: delete_old_cache_def caches_delete_def emit_def)

lemma fold_delete_old_cache_clients: "clients (fold delete_old_cache ns w) = clients w"
  by (induction ns arbitrary: w) (simp_all add: delete_old_cache_clients)

text \<open>
  C6. After the \<^verbatim>\<open>activate\<close> handler, whatever partitions existed before, every partition
  that is left bears one of the three current names; the storage is the old one restricted to
  those names, so every other partition is gone and the current ones keep their entries. The
  effects are the enumeration, one deletion for each stale name, and then
  \<^verbatim>\<open>clients.claim()\<close>.
\<close>

theorem activate_purges_stale:
  "set (map fst (caches (on_activate w))) \<subseteq> {STATIC_CACHE, DYNAMIC_CACHE, IMAGE_CACHE_NAME} \<and>
   caches (on_activate w) =
     filter (\<lambda>p. fst p \<in> {STATIC_CACHE, DYNAMIC_CACHE, IMAGE_CACHE_NAME}) (caches w) \<and>
   trace (on_activate w) =
     trace w @ [CachesKeys] @
     map CachesDelete
       (filter (\<lambda>n. n \<notin> {STATIC_CACHE, DYNAMIC_CACHE, IMAGE_CACHE_NAME}) (map fst (caches w))) @
     [ClientsClaim] \<and>
   clients (on_activate w) = clients w"
proof -
  have cur: "set current_caches = {STATIC_CACHE, DYNAMIC_CACHE, IMAGE_CACHE_NAME}"
    by (simp add: current_caches_def)
  have c: "caches (on_activate w) =
      filter (\<lambda>p. fst p \<in> {STATIC_CACHE, DYNAMIC_CACHE, IMAGE_CACHE_NAME}) (caches w)"
    unfolding on_activate_def caches_keys_def
    by (auto simp: emit_def fold_delete_old_cache_caches cur intro: filter_cong)
  have t: "trace (on_activate w) =
     trace w @ [CachesKeys] @
     map CachesDelete
       (filter (\<lambda>n. n \<notin> {STATIC_CACHE, DYNAMIC_CACHE, IMAGE_CACHE_NAME}) (map fst (caches w))) @
     [ClientsClaim]"
    unfolding on_activate_def caches_keys_def
    by (simp add: emit_def fold_delete_old_cache_trace cur)
  have cl: "clients (on_activate w) = clients w"
    unfolding on_activate_def caches_keys_def
    by (simp add: emit_def fold_delete_old_cache_clients)
  have "set (map fst (caches (on_activate w))) \<subseteq> {STATIC_CACHE, DYNAMIC_CACHE, IMAGE_CACHE_NAME}"
    unfolding c by auto
  with c t cl show ?thesis by blast
qed

theorem activate_purges_stale_witness:
  "caches (on_activate stale_world) = [(STATIC_CACHE, [(''https://acwhisk.app/'', sample_response)]), (DYNAMIC_CACHE, [])] \<and>
   trace (on_activate stale_world) =
     [CachesKeys, CachesDelete ''acwhisk-static-v1.0.2'', CachesDelete CACHE_NAME, ClientsClaim]"
  using activate_purges_stale [of stale_world]
  by (simp add: stale_world_def STATIC_CACHE_def DYNAMIC_CACHE_def IMAGE_CACHE_NAME_def CACHE_NAME_def)

subsection \<open>Clearing the caches\<close>

lemma map_of_filter_fst:
  "map_of (filter (\<lambda>p. Q (fst p)) xs) k = (if Q k then map_of xs k else None)"
  by (induction xs) auto

lemma cache_names_distinct:
  "STATIC_CACHE \<noteq> DYNAMIC_CACHE" "STATIC_CACHE \<noteq> IMAGE_CACHE_NAME" "DYNAMIC_CACHE \<noteq> IMAGE_CACHE_NAME"
  by (simp_all add: STATIC_CACHE_def DYNAMIC_CACHE_def IMAGE_CACHE_NAME_def)

lemma on_message_clear:
  assumes "msg_type ev = ''CLEAR_CACHE''" and "ports ev = p # ps"
  shows "on_message net up rs ev w =
     w\<lparr>caches := filter (\<lambda>c. fst c \<noteq> DYNAMIC_CACHE \<and> fst c \<noteq> IMAGE_CACHE_NAME) (caches w),
       trace := trace w @ [CachesDelete DYNAMIC_CACHE, CachesDelete IMAGE_CACHE_NAME,
                           PortPost p (Success True)]\<rparr>"
  using assms
  by (auto simp: on_message_def port_post_def caches_delete_def emit_def intro: filter_cong)

lemma the_cache_absent: "map_of (caches w) n = None \<Longrightarrow> the_cache n w = []"
  by (simp add: the_cache_def)

lemma on_message_size:
  assumes "msg_type ev = ''GET_CACHE_SIZE''" and "ports ev = q # qs"
  shows "trace (on_message net up rs ev w) =
     trace w @ [CachesOpen DYNAMIC_CACHE, CachesOpen IMAGE_CACHE_NAME,
                CacheKeys DYNAMIC_CACHE, CacheKeys IMAGE_CACHE_NAME,
                PortPost q (CacheSize (length (the_cache DYNAMIC_CACHE w))
                                      (length (the_cache IMAGE_CACHE_NAME w))
                                      (length (the_cache DYNAMIC_CACHE w) +
                                       length (the_cache IMAGE_CACHE_NAME w)))]"
proof -
  have d: "the_cache DYNAMIC_CACHE (caches_open IMAGE_CACHE_NAME (caches_open DYNAMIC_CACHE w)) =
           the_cache DYNAMIC_CACHE w"
    by (simp add: the_cache_caches_open)
  have i: "the_cache IMAGE_CACHE_NAME
             (emit e (caches_open IMAGE_CACHE_NAME (caches_open DYNAMIC_CACHE w))) =
           the_cache IMAGE_CACHE_NAME w" for e
    by (simp add: the_cache_caches_open the_cache_emit)
  have t: "trace (caches_open IMAGE_CACHE_NAME (caches_open DYNAMIC_CACHE w)) =
           trace w @ [CachesOpen DYNAMIC_CACHE, CachesOpen IMAGE_CACHE_NAME]"
    by (simp add: caches_open_def emit_def)
  show ?thesis
    using assms
    by (simp add: on_message_def cache_keys_def port_post_def d i t) (simp add: emit_def t)
qed

text \<open>
  C9. A \<^verbatim>\<open>CLEAR_CACHE\<close> message that brings a port deletes the dynamic and the image
  partition and no other (the static partition is as before), and then posts
  \<^verbatim>\<open>{success: true}\<close> on the port, once. A \<^verbatim>\<open>GET_CACHE_SIZE\<close> message handled
  next reopens both partitions empty and posts the counts 0 and 0 and the total 0.
\<close>

theorem clear_cache_then_size:
  assumes "msg_type clear_ev = ''CLEAR_CACHE''" and "ports clear_ev = p # ps"
    and "msg_type size_ev = ''GET_CACHE_SIZE''" and "ports size_ev = q # qs"
  shows "caches (on_message net up rs clear_ev w) =
           filter (\<lambda>c. fst c \<noteq> DYNAMIC_CACHE \<and> fst c \<noteq> IMAGE_CACHE_NAME) (caches w) \<and>
         map_of (caches (on_message net up rs clear_ev w)) STATIC_CACHE = map_of (caches w) STATIC_CACHE \<and>
         trace (on_message net up rs clear_ev w) =
           trace w @ [CachesDelete DYNAMIC_CACHE, CachesDelete IMAGE_CACHE_NAME,
                      PortPost p (Success True)] \<and>
         trace (on_message net' up' rs' size_ev (on_message net up rs clear_ev w)) =
           trace (on_message net up rs clear_ev w) @
             [CachesOpen DYNAMIC_CACHE, CachesOpen IMAGE_CACHE_NAME,
              CacheKeys DYNAMIC_CACHE, CacheKeys IMAGE_CACHE_NAME,
              PortPost q (CacheSize 0 0 0)]"
proof -
  let ?w1 = "on_message net up rs clear_ev w"
  have w1: "?w1 = w\<lparr>caches := filter (\<lambda>c. fst c \<noteq> DYNAMIC_CACHE \<and> fst c \<noteq> IMAGE_CACHE_NAME) (caches w),
       trace := trace w @ [CachesDelete DYNAMIC_CACHE, CachesDelete IMAGE_CACHE_NAME,
                           PortPost p (Success True)]\<rparr>"
    using assms(1,2) by (rule on_message_clear)
  have c: "caches ?w1 = filter (\<lambda>c. fst c \<noteq> DYNAMIC_CACHE \<and> fst c \<noteq> IMAGE_CACHE_NAME) (caches w)"
    by (simp add: w1)
  have s: "map_of (caches ?w1) STATIC_CACHE = map_of (caches w) STATIC_CACHE"
    unfolding c using cache_names_distinct
    by (simp add: map_of_filter_fst [where Q = "\<lambda>n. n \<noteq> DYNAMIC_CACHE \<and> n \<noteq> IMAGE_CACHE_NAME"])
  have "map_of (caches ?w1) DYNAMIC_CACHE = None"
    unfolding c by (simp add: map_of_filter_fst [where Q = "\<lambda>n. n \<noteq> DYNAMIC_CACHE \<and> n \<noteq> IMAGE_CACHE_NAME"])
  then have d: "the_cache DYNAMIC_CACHE ?w1 = []" by (rule the_cache_absent)
  have "map_of (caches ?w1) IMAGE_CACHE_NAME = None"
    unfolding c by (simp add: map_of_filter_fst [where Q = "\<lambda>n. n \<noteq> DYNAMIC_CACHE \<and> n \<noteq> IMAGE_CACHE_NAME"])
  then have i: "the_cache IMAGE_CACHE_NAME ?w1 = []" by (rule the_cache_absent)
  have t: "trace ?w1 = trace w @ [CachesDelete DYNAMIC_CACHE, CachesDelete IMAGE_CACHE_NAME,
                      PortPost p (Success True)]"
    by (simp add: w1)
  have "trace (on_message net' up' rs' size_ev ?w1) =
           trace ?w1 @
             [CachesOpen DYNAMIC_CACHE, CachesOpen IMAGE_CACHE_NAME,
              CacheKeys DYNAMIC_CACHE, CacheKeys IMAGE_CACHE_NAME,
              PortPost q (CacheSize 0 0 0)]"
    using on_message_size [OF assms(3,4), of net' up' rs' ?w1] by (simp add: d i)
  with c s t show ?thesis by blast
qed

theorem clear_cache_then_size_witness:
  "caches (on_message offline_network https_only sample_resolve clear_cache_event populated_world) =
     [(STATIC_CACHE, [(''https://acwhisk.app/'', sample_response)])] \<and>
   trace (on_message offline_network https_only sample_resolve clear_cache_event populated_world) =
     [CachesDelete DYNAMIC_CACHE, CachesDelete IMAGE_CACHE_NAME, PortPost 7 (Success True)] \<and>
   trace (on_message offline_network https_only sample_resolve get_cache_size_event
           (on_message offline_network https_only sample_resolve clear_cache_event populated_world)) =
     [CachesDelete DYNAMIC_CACHE, CachesDelete IMAGE_CACHE_NAME, PortPost 7 (Success True),
      CachesOpen DYNAMIC_CACHE, CachesOpen IMAGE_CACHE_NAME,
      CacheKeys DYNAMIC_CACHE, CacheKeys IMAGE_CACHE_NAME, PortPost 8 (CacheSize 0 0 0)]"
  using clear_cache_then_size [where clear_ev = clear_cache_event and p = 7 and ps = "[]"
      and size_ev = get_cache_size_event and q = 8 and qs = "[]"
      and net = offline_network and up = https_only and rs = sample_resolve
      and net' = offline_network and up' = https_only and rs' = sample_resolve
      and w = populated_world]
    cache_names_distinct
  by (simp add: clear_cache_event_def get_cache_size_event_def populated_world_def)

subsection \<open>Installation\<close>

lemma map_of_map_named:
  "map_of (map (\<lambda>p. if fst p = n then (fst p, f (snd p)) else p) cs) m =
     (if m = n then map_option f (map_of cs m) else map_of cs m)"
  by (induction cs) auto

lemma map_of_update_cache:
  "map_of (caches (update_cache n f w)) m =
     (if m = n then map_option f (map_of (caches w) m) else map_of (caches w) m)"
  by (simp add: update_cache_def map_of_map_named)

lemma the_cache_update_cache:
  "the_cache m (update_cache n f w) =
     (if m = n then (case map_of (caches w) n of None \<Rightarrow> [] | Some c \<Rightarrow> f c) else the_cache m w)"
  unfolding the_cache_def map_of_update_cache by (simp split: option.splits)

lemma the_cache_update_present:
  "map_of (caches w) n \<noteq> None \<Longrightarrow> the_cache n (update_cache n f w) = f (the_cache n w)"
  unfolding the_cache_update_cache by (auto simp: the_cache_def)

lemma present_update_cache:
  "(map_of (caches (update_cache n f w)) m = None) = (map_of (caches w) m = None)"
  by (simp add: map_of_update_cache)

lemma present_emit: "map_of (caches (emit e w)) m = map_of (caches w) m"
  by (simp add: emit_def)

lemma present_caches_open:
  "(map_of (caches (caches_open n w)) m = None) = (m \<noteq> n \<and> map_of (caches w) m = None)"
  by (auto simp: caches_open_def emit_def map_of_snoc split: option.splits)

lemma fold_emit_caches: "caches (fold (\<lambda>u. emit (g u)) us w) = caches w"
  by (induction us arbitrary: w) (simp_all add: emit_def)

lemma fold_emit_trace: "trace (fold (\<lambda>u. emit (g u)) us w) = trace w @ map g us"
  by (induction us arbitrary: w) (simp_all add: emit_def)

lemma the_cache_cong: "caches w = caches w' \<Longrightarrow> the_cache n w = the_cache n w'"
  by (simp add: the_cache_def)

lemma add_entry_present:
  "(map_of (caches (add_entry net n u w)) m = None) = (map_of (caches w) m = None)"
  by (simp add: add_entry_def present_emit present_update_cache split: option.splits)

lemma fold_add_entry_present:
  "(map_of (caches (fold (add_entry net n) us w)) m = None) = (map_of (caches w) m = None)"
  by (induction us arbitrary: w) (simp_all add: add_entry_present)

lemma add_entry_the_cache:
  assumes "map_of (caches w) n \<noteq> None" and "net ''GET'' u [] = Some r"
  shows "the_cache n (add_entry net n u w) = entry_put u r (the_cache n w)"
  using assms by (simp add: add_entry_def the_cache_emit the_cache_update_present)

lemma add_entry_other: "m \<noteq> n \<Longrightarrow> the_cache m (add_entry net n u w) = the_cache m w"
  by (simp add: add_entry_def the_cache_emit the_cache_update_cache split: option.splits)

text \<open>The keys and the lookups of a partition after a batch of writes.\<close>

lemma fold_add_entry_keys:
  assumes "map_of (caches w) n \<noteq> None"
    and "\<forall>u\<in>set us. net ''GET'' u [] \<noteq> None"
    and "distinct us"
  shows "map fst (the_cache n (fold (add_entry net n) us w)) =
           filter (\<lambda>k. k \<notin> set us) (map fst (the_cache n w)) @ us"
  using assms
proof (induction us arbitrary: w)
  case Nil
  show ?case by simp
next
  case (Cons u us)
  from Cons.prems obtain r where r: "net ''GET'' u [] = Some r" by auto
  have p: "map_of (caches (add_entry net n u w)) n \<noteq> None"
    using Cons.prems(1) by (simp add: add_entry_present)
  have "map fst (the_cache n (fold (add_entry net n) (u # us) w)) =
      filter (\<lambda>k. k \<notin> set us) (map fst (the_cache n (add_entry net n u w))) @ us"
    using Cons.IH [OF p] Cons.prems by simp
  also have "map fst (the_cache n (add_entry net n u w)) = filter (\<lambda>k. k \<noteq> u) (map fst (the_cache n w)) @ [u]"
    using Cons.prems(1) r by (simp add: add_entry_the_cache entry_put_def filter_map comp_def)
  finally show ?case
    using Cons.prems(3) by (auto intro: filter_cong)
qed

lemma map_of_entry_put: "map_of (entry_put u r c) k = (if k = u then Some r else map_of c k)"
  by (induction c) (auto simp: entry_put_def)

lemma fold_add_entry_lookup:
  assumes "map_of (caches w) n \<noteq> None"
    and "\<forall>u\<in>set us. net ''GET'' u [] \<noteq> None"
  shows "map_of (the_cache n (fold (add_entry net n) us w)) k =
           (if k \<in> set us then net ''GET'' k [] else map_of (the_cache n w) k)"
  using assms
proof (induction us arbitrary: w)
  case Nil
  show ?case by simp
next
  case (Cons u us)
  from Cons.prems obtain r where r: "net ''GET'' u [] = Some r" by auto
  have p: "map_of (caches (add_entry net n u w)) n \<noteq> None"
    using Cons.prems(1) by (simp add: add_entry_present)
  have "map_of (the_cache n (fold (add_entry net n) (u # us) w)) k =
      (if k \<in> set us then net ''GET'' k [] else map_of (the_cache n (add_entry net n u w)) k)"
    using Cons.IH [OF p] Cons.prems by simp
  then show ?case
    using Cons.prems(1) r by (simp add: add_entry_the_cache map_of_entry_put)
qed

lemma add_allowed_fetched: "add_allowed net up u \<Longrightarrow> net ''GET'' u [] \<noteq> None"
  by (auto simp: add_allowed_def split: option.splits)

text \<open>The world a successful installation leaves, and the one a failed installation leaves.\<close>

lemma on_install_success:
  assumes "install_succeeds net up rs"
  shows "on_install net up rs w =
     emit SkipWaiting
       (fold (add_entry net STATIC_CACHE) (manifest_urls rs)
          (fold (\<lambda>u. emit (Fetch ''GET'' u)) (manifest_urls rs)
             (caches_open IMAGE_CACHE_NAME (caches_open STATIC_CACHE w))))"
  using assms
  by (simp add: on_install_def cache_addAll_def install_succeeds_def manifest_urls_def Let_def)

lemma on_install_failure:
  assumes "\<not> install_succeeds net up rs"
  shows "on_install net up rs w =
     emit ConsoleError
       (fold (\<lambda>u. emit (Fetch ''GET'' u)) (manifest_urls rs)
          (caches_open IMAGE_CACHE_NAME (caches_open STATIC_CACHE w)))"
  using assms
  by (auto simp: on_install_def cache_addAll_def install_succeeds_def manifest_urls_def Let_def)

lemma install_fetched:
  "install_succeeds net up rs \<Longrightarrow> \<forall>u\<in>set (manifest_urls rs). net ''GET'' u [] \<noteq> None"
  by (auto simp: install_succeeds_def list_all_iff dest: add_allowed_fetched)

lemma on_install_keys:
  assumes "install_succeeds net up rs"
  shows "map fst (the_cache STATIC_CACHE (on_install net up rs w)) =
           filter (\<lambda>k. k \<notin> set (manifest_urls rs)) (map fst (the_cache STATIC_CACHE w)) @
           manifest_urls rs"
proof -
  let ?w0 = "fold (\<lambda>u. emit (Fetch ''GET'' u)) (manifest_urls rs)
             (caches_open IMAGE_CACHE_NAME (caches_open STATIC_CACHE w))"
  have c: "caches ?w0 = caches (caches_open IMAGE_CACHE_NAME (caches_open STATIC_CACHE w))"
    by (rule fold_emit_caches)
  have p: "map_of (caches ?w0) STATIC_CACHE \<noteq> None"
    unfolding c by (simp add: present_caches_open)
  have d: "distinct (manifest_urls rs)"
    using assms by (simp add: install_succeeds_def)
  have "the_cache STATIC_CACHE ?w0 = the_cache STATIC_CACHE w"
    using the_cache_cong [OF c] by (simp add: the_cache_caches_open)
  then show ?thesis
    using fold_add_entry_keys [of ?w0 STATIC_CACHE "manifest_urls rs" net] p
      install_fetched [OF assms] d
    by (simp add: on_install_success [OF assms] the_cache_emit)
qed

lemma on_install_lookup:
  assumes "install_succeeds net up rs"
  shows "map_of (the_cache STATIC_CACHE (on_install net up rs w)) k =
           (if k \<in> set (manifest_urls rs) then net ''GET'' k []
            else map_of (the_cache STATIC_CACHE w) k)"
proof -
  let ?w0 = "fold (\<lambda>u. emit (Fetch ''GET'' u)) (manifest_urls rs)
             (caches_open IMAGE_CACHE_NAME (caches_open STATIC_CACHE w))"
  have c: "caches ?w0 = caches (caches_open IMAGE_CACHE_NAME (caches_open STATIC_CACHE w))"
    by (rule fold_emit_caches)
  have p: "map_of (caches ?w0) STATIC_CACHE \<noteq> None"
    unfolding c by (simp add: present_caches_open)
  have "the_cache STATIC_CACHE ?w0 = the_cache STATIC_CACHE w"
    using the_cache_cong [OF c] by (simp add: the_cache_caches_open)
  then show ?thesis
    using fold_add_entry_lookup [of ?w0 STATIC_CACHE "manifest_urls rs" net k] p
      install_fetched [OF assms]
    by (simp add: on_install_success [OF assms] the_cache_emit)
qed

lemma add_entry_trace:
  "net ''GET'' u [] \<noteq> None \<Longrightarrow> trace (add_entry net n u w) = trace w @ [CachePut n u]"
  by (auto simp: add_entry_def emit_def update_cache_def)

lemma fold_add_entry_trace:
  "\<forall>u\<in>set us. net ''GET'' u [] \<noteq> None \<Longrightarrow>
   trace (fold (add_entry net n) us w) = trace w @ map (CachePut n) us"
  by (induction us arbitrary: w) (simp_all add: add_entry_trace)

lemma on_install_trace:
  assumes "install_succeeds net up rs"
  shows "trace (on_install net up rs w) =
           trace w @ [CachesOpen STATIC_CACHE, CachesOpen IMAGE_CACHE_NAME] @
           map (Fetch ''GET'') (manifest_urls rs) @ map (CachePut STATIC_CACHE) (manifest_urls rs) @
           [SkipWaiting]"
proof -
  have "trace (caches_open IMAGE_CACHE_NAME (caches_open STATIC_CACHE w)) =
          trace w @ [CachesOpen STATIC_CACHE, CachesOpen IMAGE_CACHE_NAME]"
    by (simp add: caches_open_def emit_def)
  moreover have "trace (fold (add_entry net STATIC_CACHE) (manifest_urls rs) w') =
          trace w' @ map (CachePut STATIC_CACHE) (manifest_urls rs)" for w'
    using install_fetched [OF assms] by (rule fold_add_entry_trace)
  ultimately show ?thesis
    unfolding on_install_success [OF assms]
    by (simp add: emit_def fold_emit_trace)
qed

lemma on_install_failure_trace:
  "\<not> install_succeeds net up rs \<Longrightarrow> last (trace (on_install net up rs w)) = ConsoleError"
  by (simp add: on_install_failure emit_def)

lemma on_install_image_present: "map_of (caches (on_install net up rs w)) IMAGE_CACHE_NAME \<noteq> None"
  by (simp add: on_install_def cache_addAll_def Let_def present_emit fold_add_entry_present
      fold_emit_caches present_caches_open del: not_None_eq)

lemma sample_response_cacheable: "cacheable sample_response"
  by (simp add: cacheable_def response_ok_def vary_star_def sample_response_def headers_get_def
      to_lower_def to_lower_char_def)

lemma sample_manifest_urls:
  "manifest_urls sample_resolve =
     [''https://acwhisk.app/'',
      ''https://acwhisk.app/App.tsx'',
      ''https://acwhisk.app/styles/globals.css'',
      ''https://acwhisk.app/components/ui/button.tsx'',
      ''https://acwhisk.app/components/ui/card.tsx'',
      ''https://acwhisk.app/components/ui/avatar.tsx'',
      ''https://acwhisk.app/components/figma/ImageWithFallback.tsx'']"
  by (simp add: manifest_urls_def sample_resolve_def STATIC_ASSETS_def)

lemma serving_network_succeeds: "install_succeeds serving_network https_only sample_resolve"
  unfolding install_succeeds_def sample_manifest_urls
  by (simp add: add_allowed_def serving_network_def https_only_def sample_response_cacheable)

subsection \<open>The maintenance sweep\<close>

lemma sweep_step:
  "sweep pd b (u # us) w =
     (case map_of (the_cache IMAGE_CACHE_NAME w) u of
        None \<Rightarrow> sweep pd b us (emit (CacheMatch IMAGE_CACHE_NAME u) w)
      | Some r \<Rightarrow>
          if expired pd b r
          then sweep pd b us (cache_delete IMAGE_CACHE_NAME u (emit (CacheMatch IMAGE_CACHE_NAME u) w))
          else sweep pd b us (emit (CacheMatch IMAGE_CACHE_NAME u) w))"
  by (simp add: cache_match_def expired_def split: option.splits)

lemma the_cache_present: "the_cache n w \<noteq> [] \<Longrightarrow> map_of (caches w) n \<noteq> None"
  by (auto simp: the_cache_def split: option.splits)

lemma the_cache_cache_delete:
  "the_cache IMAGE_CACHE_NAME (cache_delete IMAGE_CACHE_NAME u w) =
     filter (\<lambda>e. fst e \<noteq> u) (the_cache IMAGE_CACHE_NAME w)"
  unfolding cache_delete_def the_cache_emit the_cache_update_cache
  by (simp add: the_cache_def entry_delete_def split: option.splits)

lemma map_of_None_keys: "map_of c u = None \<Longrightarrow> e \<in> set c \<Longrightarrow> fst e \<noteq> u"
  by (metis map_of_eq_None_iff image_eqI)

lemma distinct_key_unique:
  "distinct (map fst c) \<Longrightarrow> map_of c u = Some r \<Longrightarrow> e \<in> set c \<Longrightarrow> fst e = u \<Longrightarrow> snd e = r"
  by (metis map_of_eq_Some_iff option.inject prod.collapse)

lemma sweep_the_cache:
  assumes "distinct (map fst (the_cache IMAGE_CACHE_NAME w))"
  shows "the_cache IMAGE_CACHE_NAME (sweep pd b us w) =
           filter (\<lambda>e. \<not> (fst e \<in> set us \<and> expired pd b (snd e))) (the_cache IMAGE_CACHE_NAME w)"
  using assms
proof (induction us arbitrary: w)
  case Nil
  show ?case by simp
next
  case (Cons u us)
  let ?c = "the_cache IMAGE_CACHE_NAME w"
  let ?w1 = "emit (CacheMatch IMAGE_CACHE_NAME u) w"
  have c1: "the_cache IMAGE_CACHE_NAME ?w1 = ?c" by (rule the_cache_emit)
  have keep: "the_cache IMAGE_CACHE_NAME (sweep pd b us ?w1) =
      filter (\<lambda>e. \<not> (fst e \<in> set us \<and> expired pd b (snd e))) ?c"
    using Cons.IH [of ?w1] Cons.prems by (simp add: c1)
  show ?case
  proof (cases "map_of ?c u")
    case None
    have "filter (\<lambda>e. \<not> (fst e \<in> set us \<and> expired pd b (snd e))) ?c =
          filter (\<lambda>e. \<not> (fst e \<in> set (u # us) \<and> expired pd b (snd e))) ?c"
      by (intro filter_cong refl) (use map_of_None_keys [OF None] in auto)
    with None keep show ?thesis by (simp add: sweep_step del: sweep.simps)
  next
    case (Some r)
    show ?thesis
    proof (cases "expired pd b r")
      case False
      have "filter (\<lambda>e. \<not> (fst e \<in> set us \<and> expired pd b (snd e))) ?c =
            filter (\<lambda>e. \<not> (fst e \<in> set (u # us) \<and> expired pd b (snd e))) ?c"
        by (intro filter_cong refl) (use distinct_key_unique [OF Cons.prems Some] False in auto)
      with Some False keep show ?thesis by (simp add: sweep_step del: sweep.simps)
    next
      case True
      let ?w2 = "cache_delete IMAGE_CACHE_NAME u ?w1"
      have c2: "the_cache IMAGE_CACHE_NAME ?w2 = filter (\<lambda>e. fst e \<noteq> u) ?c"
        by (simp add: the_cache_cache_delete c1)
      have "distinct (map fst (the_cache IMAGE_CACHE_NAME ?w2))"
        unfolding c2 using Cons.prems by (simp add: distinct_map_filter)
      then have "the_cache IMAGE_CACHE_NAME (sweep pd b us ?w2) =
          filter (\<lambda>e. \<not> (fst e \<in> set us \<and> expired pd b (snd e))) (filter (\<lambda>e. fst e \<noteq> u) ?c)"
        using Cons.IH [of ?w2] by (simp add: c2)
      also have "\<dots> = filter (\<lambda>e. \<not> (fst e \<in> set (u # us) \<and> expired pd b (snd e))) ?c"
        unfolding filter_filter
        by (intro filter_cong refl) (use distinct_key_unique [OF Cons.prems Some] True in auto)
      finally show ?thesis using Some True by (simp add: sweep_step del: sweep.simps)
    qed
  qed
qed


lemma cache_delete_clients: "clients (cache_delete n u w) = clients w"
  by (simp add: cache_delete_def emit_def update_cache_def)

lemma sweep_clients: "clients (sweep pd b us w) = clients w"
proof (induction us arbitrary: w)
  case Nil
  show ?case by simp
next
  case (Cons u us)
  show ?case
    by (simp add: sweep_step Cons cache_delete_clients del: sweep.simps split: option.splits)
      (simp add: emit_def)
qed

lemma notify_clients_caches: "caches (notify_clients now i cs w) = caches w"
  by (induction cs arbitrary: i w) (simp_all add: emit_def)

lemma notify_clients_trace:
  "trace (notify_clients now i cs w) =
     trace w @ map (\<lambda>p. ClientPost (snd p) (SYNC_COMPLETE (now (fst p)))) (enumerate i cs)"
  by (induction cs arbitrary: i w) (simp_all add: emit_def)

lemma expired_iff_older:
  "parse_date [] = None \<Longrightarrow> expired parse_date b r = date_older_than parse_date b r"
  by (auto simp: expired_def date_older_than_def split: option.splits)

lemma doBackgroundSync_the_cache:
  assumes "distinct (map fst (the_cache IMAGE_CACHE_NAME w))"
  shows "the_cache IMAGE_CACHE_NAME (doBackgroundSync parse_date now w) =
           filter (\<lambda>e. \<not> expired parse_date (now 0 - week_ms) (snd e)) (the_cache IMAGE_CACHE_NAME w)"
proof -
  let ?w1 = "emit (CacheKeys IMAGE_CACHE_NAME) (caches_open IMAGE_CACHE_NAME w)"
  let ?c = "the_cache IMAGE_CACHE_NAME w"
  have c1: "the_cache IMAGE_CACHE_NAME ?w1 = ?c"
    by (simp add: the_cache_emit the_cache_caches_open)
  have "the_cache IMAGE_CACHE_NAME (sweep parse_date (now 0 - week_ms) (map fst ?c) ?w1) =
      filter (\<lambda>e. \<not> (fst e \<in> set (map fst ?c) \<and> expired parse_date (now 0 - week_ms) (snd e))) ?c"
    using sweep_the_cache [of ?w1 parse_date "now 0 - week_ms" "map fst ?c"] assms by (simp add: c1)
  also have "\<dots> = filter (\<lambda>e. \<not> expired parse_date (now 0 - week_ms) (snd e)) ?c"
    by (intro filter_cong refl) auto
  finally have "the_cache IMAGE_CACHE_NAME (sweep parse_date (now 0 - week_ms) (map fst ?c) ?w1) =
      filter (\<lambda>e. \<not> expired parse_date (now 0 - week_ms) (snd e)) ?c" .
  moreover have "the_cache IMAGE_CACHE_NAME (notify_clients now i cs (emit e w')) =
      the_cache IMAGE_CACHE_NAME w'" for i cs e w'
    using the_cache_cong [of "notify_clients now i cs (emit e w')" "emit e w'" IMAGE_CACHE_NAME]
    by (simp add: notify_clients_caches the_cache_emit)
  ultimately show ?thesis
    by (simp add: doBackgroundSync_def cache_keys_def Let_def the_cache_caches_open)
qed

lemma doBackgroundSync_trace:
  "\<exists>t. trace (doBackgroundSync parse_date now w) =
     t @ ClientsMatchAll #
       map (\<lambda>p. ClientPost (snd p) (SYNC_COMPLETE (now (fst p)))) (enumerate 1 (clients w))"
  by (simp add: doBackgroundSync_def cache_keys_def Let_def notify_clients_trace sweep_clients)
    (simp add: emit_def caches_open_def)

text \<open>
  C7. After \<open>doBackgroundSync\<close> no entry of the image partition carries a \<^verbatim>\<open>date\<close>
  header whose time lies more than seven days before the time read at the start of the sweep;
  every other entry is still there. The run ends with \<^verbatim>\<open>clients.matchAll()\<close> and one
  \<^verbatim>\<open>SYNC_COMPLETE\<close> message to each page context it enumerates, stamped with the clock
  value read for that message. The URLs of the partition are distinct, as the keys of a cache
  are, and an empty string is not a date.
\<close>

theorem sweep_evicts_aged:
  assumes "distinct (map fst (the_cache IMAGE_CACHE_NAME w))"
    and "parse_date [] = None"
  shows "(\<forall>e\<in>set (the_cache IMAGE_CACHE_NAME (doBackgroundSync parse_date now w)).
            \<not> date_older_than parse_date (now 0 - week_ms) (snd e)) \<and>
         the_cache IMAGE_CACHE_NAME (doBackgroundSync parse_date now w) =
           filter (\<lambda>e. \<not> date_older_than parse_date (now 0 - week_ms) (snd e))
             (the_cache IMAGE_CACHE_NAME w) \<and>
         (\<exists>t. trace (doBackgroundSync parse_date now w) =
            t @ ClientsMatchAll #
              map (\<lambda>p. ClientPost (snd p) (SYNC_COMPLETE (now (fst p)))) (enumerate 1 (clients w)))"
proof -
  have "the_cache IMAGE_CACHE_NAME (doBackgroundSync parse_date now w) =
           filter (\<lambda>e. \<not> date_older_than parse_date (now 0 - week_ms) (snd e))
             (the_cache IMAGE_CACHE_NAME w)"
    using doBackgroundSync_the_cache [OF assms(1), of parse_date now] assms(2)
    by (simp add: expired_iff_older)
  moreover from this
  have "\<forall>e\<in>set (the_cache IMAGE_CACHE_NAME (doBackgroundSync parse_date now w)).
            \<not> date_older_than parse_date (now 0 - week_ms) (snd e)"
    by simp
  ultimately show ?thesis
    using doBackgroundSync_trace [of parse_date now w] by blast
qed

lemma to_lower_date: "to_lower ''date'' = ''date''"
  by (simp add: to_lower_def to_lower_char_def)

theorem sweep_evicts_aged_witness:
  "distinct (map fst (the_cache IMAGE_CACHE_NAME aged_world)) \<and>
   sample_parse_date [] = None \<and>
   date_older_than sample_parse_date (sample_clock 0 - week_ms) aged_response \<and>
   the_cache IMAGE_CACHE_NAME (doBackgroundSync sample_parse_date sample_clock aged_world) =
     [(''https://acwhisk.app/new.jpg'', fresh_response),
      (''https://acwhisk.app/logo.png'', undated_response)] \<and>
   (\<exists>t. trace (doBackgroundSync sample_parse_date sample_clock aged_world) =
      t @ [ClientsMatchAll,
           ClientPost 1 (SYNC_COMPLETE 1793617080001),
           ClientPost 2 (SYNC_COMPLETE 1793617080002)])"
proof -
  have c: "the_cache IMAGE_CACHE_NAME aged_world =
     [(''https://acwhisk.app/old.jpg'', aged_response),
      (''https://acwhisk.app/new.jpg'', fresh_response),
      (''https://acwhisk.app/logo.png'', undated_response)]"
    by (simp add: the_cache_def aged_world_def)
  have d: "distinct (map fst (the_cache IMAGE_CACHE_NAME aged_world))"
    by (simp add: c)
  have p: "sample_parse_date [] = None"
    by (simp add: sample_parse_date_def)
  have old: "date_older_than sample_parse_date (sample_clock 0 - week_ms) aged_response"
    by (simp add: date_older_than_def aged_response_def headers_get_def to_lower_date
        sample_parse_date_def sample_clock_def week_ms_def)
  have new: "\<not> date_older_than sample_parse_date (sample_clock 0 - week_ms) fresh_response"
    by (simp add: date_older_than_def fresh_response_def headers_get_def to_lower_date
        sample_parse_date_def sample_clock_def week_ms_def)
  have und: "\<not> date_older_than sample_parse_date (sample_clock 0 - week_ms) undated_response"
    by (simp add: date_older_than_def undated_response_def headers_get_def to_lower_date)
  have cl: "enumerate (Suc 0) (clients aged_world) = [(Suc 0, Suc 0), (2, 2)]"
    by (simp add: aged_world_def)
  note sw = sweep_evicts_aged [of aged_world sample_parse_date sample_clock, OF d p]
  have kept: "the_cache IMAGE_CACHE_NAME (doBackgroundSync sample_parse_date sample_clock aged_world) =
     [(''https://acwhisk.app/new.jpg'', fresh_response),
      (''https://acwhisk.app/logo.png'', undated_response)]"
    using sw by (simp add: c old new und)
  have "sample_clock (Suc 0) = 1793617080001" and "sample_clock 2 = 1793617080002"
    by (simp_all add: sample_clock_def)
  with sw have sent: "\<exists>t. trace (doBackgroundSync sample_parse_date sample_clock aged_world) =
      t @ [ClientsMatchAll,
           ClientPost 1 (SYNC_COMPLETE 1793617080001),
           ClientPost 2 (SYNC_COMPLETE 1793617080002)]"
    by (simp add: cl)
  from d p old kept sent show ?thesis by blast
qed

subsection \<open>Entries written by the image handler\<close>

lemma optimizedResponse_headers:
  "headers (optimizedResponse response) =
     [(''cache-control'', ''public, max-age=604800''),
      (''service-worker-cached'', ''true''),
      (''x-optimized'', ''true'')]"
  by (simp add: optimizedResponse_def new_Response_def Let_def object_literal_def spread_Headers_def
      headers_from_object_def to_lower_def to_lower_char_def)

lemma optimizedResponse_no_date: "headers_get ''date'' (headers (optimizedResponse response)) = None"
  by (simp add: optimizedResponse_headers headers_get_def to_lower_date)

lemma optimizedResponse_no_content_type:
  "headers_get ''content-type'' (headers (optimizedResponse response)) = None"
  by (simp add: optimizedResponse_headers headers_get_def to_lower_def to_lower_char_def)

lemma optimizedResponse_no_vary: "\<not> vary_star (optimizedResponse response)"
  by (simp add: vary_star_def optimizedResponse_headers headers_get_def to_lower_def to_lower_char_def)

lemma optimizedResponse_status: "status (optimizedResponse response) = status response"
  by (simp add: optimizedResponse_def new_Response_def Let_def)

lemma optimizedResponse_body: "body (optimizedResponse response) = body response"
  by (simp add: optimizedResponse_def new_Response_def Let_def)

lemma undated_not_expired: "headers_get ''date'' (headers r) = None \<Longrightarrow> \<not> expired pd b r"
  by (simp add: expired_def)

lemma map_of_filter_key: "map_of (filter (\<lambda>e. fst e \<noteq> u) c) k = (if k = u then None else map_of c k)"
  by (induction c) auto

lemma sweep_keeps_undated:
  assumes "map_of (the_cache IMAGE_CACHE_NAME w) k = Some r"
    and "headers_get ''date'' (headers r) = None"
  shows "map_of (the_cache IMAGE_CACHE_NAME (sweep pd b us w)) k = Some r"
  using assms(1)
proof (induction us arbitrary: w)
  case Nil
  then show ?case by simp
next
  case (Cons u us)
  let ?w1 = "emit (CacheMatch IMAGE_CACHE_NAME u) w"
  have k1: "map_of (the_cache IMAGE_CACHE_NAME ?w1) k = Some r"
    using Cons.prems by (simp add: the_cache_emit)
  show ?case
  proof (cases "map_of (the_cache IMAGE_CACHE_NAME w) u")
    case None
    with Cons.IH [OF k1] show ?thesis by (simp add: sweep_step del: sweep.simps)
  next
    case (Some r')
    show ?thesis
    proof (cases "expired pd b r'")
      case False
      with Some Cons.IH [OF k1] show ?thesis by (simp add: sweep_step del: sweep.simps)
    next
      case True
      have "u \<noteq> k"
        using True Some Cons.prems assms(2) undated_not_expired by auto
      then have "map_of (the_cache IMAGE_CACHE_NAME (cache_delete IMAGE_CACHE_NAME u ?w1)) k = Some r"
        using k1 by (simp add: the_cache_cache_delete map_of_filter_key)
      from Cons.IH [OF this] Some True show ?thesis by (simp add: sweep_step del: sweep.simps)
    qed
  qed
qed

lemma doBackgroundSync_keeps_undated:
  assumes "map_of (the_cache IMAGE_CACHE_NAME w) k = Some r"
    and "headers_get ''date'' (headers r) = None"
  shows "map_of (the_cache IMAGE_CACHE_NAME (doBackgroundSync parse_date now w)) k = Some r"
proof -
  let ?w1 = "emit (CacheKeys IMAGE_CACHE_NAME) (caches_open IMAGE_CACHE_NAME w)"
  have "map_of (the_cache IMAGE_CACHE_NAME ?w1) k = Some r"
    using assms(1) by (simp add: the_cache_emit the_cache_caches_open)
  then have "map_of (the_cache IMAGE_CACHE_NAME (sweep parse_date b us ?w1)) k = Some r" for b us
    using assms(2) by (rule sweep_keeps_undated)
  moreover have "the_cache IMAGE_CACHE_NAME (notify_clients now i cs (emit e w')) =
      the_cache IMAGE_CACHE_NAME w'" for i cs e w'
    using the_cache_cong [of "notify_clients now i cs (emit e w')" "emit e w'" IMAGE_CACHE_NAME]
    by (simp add: notify_clients_caches the_cache_emit)
  ultimately show ?thesis
    by (simp add: doBackgroundSync_def cache_keys_def Let_def)
qed

lemma image_handler_stores:
  assumes "req_method request = ''GET''"
    and "protocol request = ''http:'' \<or> protocol request = ''https:''"
    and "map_of (the_cache IMAGE_CACHE_NAME w) (url request) = None"
    and "net (req_method request) (url request)
              [(''Cache-Control'', ''public, max-age=86400''),
               (''Accept'', ''image/webp,image/avif,image/*,*/*;q=0.8'')] = Some response"
    and "status response = 200"
  shows "handleOptimizedImageRequest net request w =
     (Inr (optimizedResponse response),
      emit (CachePut IMAGE_CACHE_NAME (url request))
        (update_cache IMAGE_CACHE_NAME (entry_put (url request) (optimizedResponse response))
           (emit (Fetch ''GET'' (url request))
              (emit (CacheMatch IMAGE_CACHE_NAME (url request)) (caches_open IMAGE_CACHE_NAME w)))))"
proof -
  have allowed: "put_allowed (protocol request) (req_method request) (optimizedResponse response)"
    using assms(1,2,5) by (simp add: put_allowed_def optimizedResponse_no_vary optimizedResponse_status)
  have miss: "map_of (the_cache IMAGE_CACHE_NAME (caches_open IMAGE_CACHE_NAME w)) (url request) = None"
    using assms(3) by (simp add: the_cache_caches_open)
  show ?thesis
    using assms(1,4,5) allowed miss
    by (simp add: handleOptimizedImageRequest_def cache_match_def fetch_def cache_put_def)
qed


text \<open>
  C10. On a cache miss answered by the network with status 200, the image handler returns and
  stores the re-wrapped response. Its headers are the three of the object literal and no other:
  the spread of the \<^verbatim>\<open>Headers\<close> object adds nothing, so neither the content type nor
  the date of the network response is there. An entry that holds this response is still there
  after any maintenance sweep, whatever the clock and the date parser.
\<close>

theorem image_rewrap_drops_headers:
  assumes "req_method request = ''GET''"
    and "protocol request = ''http:'' \<or> protocol request = ''https:''"
    and "map_of (the_cache IMAGE_CACHE_NAME w) (url request) = None"
    and "net (req_method request) (url request)
              [(''Cache-Control'', ''public, max-age=86400''),
               (''Accept'', ''image/webp,image/avif,image/*,*/*;q=0.8'')] = Some response"
    and "status response = 200"
  shows "fst (handleOptimizedImageRequest net request w) = Inr (optimizedResponse response) \<and>
         map_of (the_cache IMAGE_CACHE_NAME (snd (handleOptimizedImageRequest net request w)))
           (url request) = Some (optimizedResponse response) \<and>
         headers (optimizedResponse response) =
           [(''cache-control'', ''public, max-age=604800''),
            (''service-worker-cached'', ''true''),
            (''x-optimized'', ''true'')] \<and>
         headers_get ''content-type'' (headers (optimizedResponse response)) = None \<and>
         headers_get ''date'' (headers (optimizedResponse response)) = None \<and>
         (\<forall>parse_date now w'.
            map_of (the_cache IMAGE_CACHE_NAME w') (url request) = Some (optimizedResponse response) \<longrightarrow>
            map_of (the_cache IMAGE_CACHE_NAME (doBackgroundSync parse_date now w')) (url request) =
              Some (optimizedResponse response))"
proof -
  let ?w3 = "emit (Fetch ''GET'' (url request))
              (emit (CacheMatch IMAGE_CACHE_NAME (url request)) (caches_open IMAGE_CACHE_NAME w))"
  have run: "handleOptimizedImageRequest net request w =
     (Inr (optimizedResponse response),
      emit (CachePut IMAGE_CACHE_NAME (url request))
        (update_cache IMAGE_CACHE_NAME (entry_put (url request) (optimizedResponse response)) ?w3))"
    using assms by (rule image_handler_stores)
  have present: "map_of (caches ?w3) IMAGE_CACHE_NAME \<noteq> None"
    by (simp add: present_emit present_caches_open del: not_None_eq)
  have stored: "map_of (the_cache IMAGE_CACHE_NAME (snd (handleOptimizedImageRequest net request w)))
           (url request) = Some (optimizedResponse response)"
    unfolding run using present
    by (simp add: the_cache_emit the_cache_update_present map_of_entry_put del: not_None_eq)
  have kept: "map_of (the_cache IMAGE_CACHE_NAME (doBackgroundSync parse_date now w')) (url request) =
              Some (optimizedResponse response)"
    if "map_of (the_cache IMAGE_CACHE_NAME w') (url request) = Some (optimizedResponse response)"
    for parse_date now w'
    using that optimizedResponse_no_date by (rule doBackgroundSync_keeps_undated)
  show ?thesis
    using run stored kept optimizedResponse_headers optimizedResponse_no_content_type
      optimizedResponse_no_date
    by simp
qed

theorem image_rewrap_drops_headers_witness:
  "headers_get ''date'' (headers fresh_response) = Some ''Sun, 01 Nov 2026 00:00:00 GMT'' \<and>
   fst (handleOptimizedImageRequest image_network image_request empty_world) =
     Inr (optimizedResponse fresh_response) \<and>
   headers (optimizedResponse fresh_response) =
     [(''cache-control'', ''public, max-age=604800''),
      (''service-worker-cached'', ''true''),
      (''x-optimized'', ''true'')] \<and>
   headers_get ''date'' (headers (optimizedResponse fresh_response)) = None \<and>
   map_of (the_cache IMAGE_CACHE_NAME
             (doBackgroundSync sample_parse_date sample_clock
                (snd (handleOptimizedImageRequest image_network image_request empty_world))))
     (url image_request) = Some (optimizedResponse fresh_response)"
proof -
  have m: "req_method image_request = ''GET''"
    by (simp add: image_request_def)
  have p: "protocol image_request = ''http:'' \<or> protocol image_request = ''https:''"
    by (simp add: image_request_def)
  have c: "map_of (the_cache IMAGE_CACHE_NAME empty_world) (url image_request) = None"
    by (simp add: the_cache_def empty_world_def)
  have n: "image_network (req_method image_request) (url image_request)
              [(''Cache-Control'', ''public, max-age=86400''),
               (''Accept'', ''image/webp,image/avif,image/*,*/*;q=0.8'')] = Some fresh_response"
    by (simp add: image_network_def)
  have s: "status fresh_response = 200"
    by (simp add: fresh_response_def)
  have d: "headers_get ''date'' (headers fresh_response) = Some ''Sun, 01 Nov 2026 00:00:00 GMT''"
    by (simp add: fresh_response_def headers_get_def to_lower_date)
  note inst = image_rewrap_drops_headers [of image_request empty_world image_network fresh_response]
  from inst m p c n s d show ?thesis by blast
qed

subsection \<open>One entry for a URL: an invariant of the worker\<close>

text \<open>Every listener keeps the URLs of each partition distinct, so the worlds the worker reaches
  from an empty storage, or from any storage with this property, have it.\<close>

lemma keys_distinct_the_cache: "keys_distinct w \<Longrightarrow> distinct (map fst (the_cache n w))"
proof (cases "map_of (caches w) n")
  case None
  then show ?thesis by (simp add: the_cache_def)
next
  case (Some c)
  assume "keys_distinct w"
  moreover from Some have "(n, c) \<in> set (caches w)" by (rule map_of_SomeD)
  ultimately have "distinct (map fst c)" by (auto simp: keys_distinct_def list_all_iff)
  with Some show ?thesis by (simp add: the_cache_def)
qed

lemma keys_distinct_empty: "keys_distinct empty_world"
  by (simp add: keys_distinct_def empty_world_def)

lemma keys_distinct_emit: "keys_distinct (emit e w) = keys_distinct w"
  by (simp add: keys_distinct_def emit_def)

lemma keys_distinct_caches_open: "keys_distinct w \<Longrightarrow> keys_distinct (caches_open n w)"
  by (simp add: keys_distinct_def caches_open_def emit_def)

lemma keys_distinct_caches_delete: "keys_distinct w \<Longrightarrow> keys_distinct (caches_delete n w)"
  by (simp add: keys_distinct_def caches_delete_def emit_def list_all_iff)

lemma entry_put_distinct: "distinct (map fst c) \<Longrightarrow> distinct (map fst (entry_put u r c))"
  by (auto simp: entry_put_def distinct_map_filter)

lemma entry_delete_distinct: "distinct (map fst c) \<Longrightarrow> distinct (map fst (entry_delete u c))"
  by (simp add: entry_delete_def distinct_map_filter)

lemma keys_distinct_update_cache:
  assumes "keys_distinct w" and "\<And>c. distinct (map fst c) \<Longrightarrow> distinct (map fst (f c))"
  shows "keys_distinct (update_cache n f w)"
  using assms by (auto simp: keys_distinct_def update_cache_def list_all_iff)

lemma keys_distinct_cache_put: "keys_distinct w \<Longrightarrow> keys_distinct (snd (cache_put n s m u r w))"
  by (simp add: cache_put_def keys_distinct_emit keys_distinct_update_cache entry_put_distinct)

lemma keys_distinct_cache_delete: "keys_distinct w \<Longrightarrow> keys_distinct (cache_delete n u w)"
  by (simp add: cache_delete_def keys_distinct_emit keys_distinct_update_cache entry_delete_distinct)

lemma keys_distinct_add_entry: "keys_distinct w \<Longrightarrow> keys_distinct (add_entry net n u w)"
  by (simp add: add_entry_def keys_distinct_emit keys_distinct_update_cache entry_put_distinct
      split: option.splits)

lemma keys_distinct_fold_add_entry: "keys_distinct w \<Longrightarrow> keys_distinct (fold (add_entry net n) us w)"
  by (induction us arbitrary: w) (simp_all add: keys_distinct_add_entry)

lemma keys_distinct_fold_emit: "keys_distinct (fold (\<lambda>u. emit (g u)) us w) = keys_distinct w"
  by (simp add: keys_distinct_def fold_emit_caches)

lemma keys_distinct_cache_addAll:
  "keys_distinct w \<Longrightarrow> keys_distinct (snd (cache_addAll net up rs n us w))"
  by (simp add: cache_addAll_def Let_def keys_distinct_fold_add_entry keys_distinct_fold_emit)

lemma keys_distinct_handlePageRequest:
  "keys_distinct w \<Longrightarrow> keys_distinct (snd (handlePageRequest net request w))"
  by (simp add: handlePageRequest_def fetch_def caches_match_def keys_distinct_emit
      keys_distinct_cache_put keys_distinct_caches_open split: option.splits)

lemma keys_distinct_handleAPIRequest:
  "keys_distinct w \<Longrightarrow> keys_distinct (snd (handleAPIRequest net request w))"
  by (simp add: handleAPIRequest_def fetch_def caches_match_def keys_distinct_emit
      keys_distinct_cache_put keys_distinct_caches_open split: option.splits)

lemma keys_distinct_handleAssetRequest:
  "keys_distinct w \<Longrightarrow> keys_distinct (snd (handleAssetRequest net request w))"
  by (simp add: handleAssetRequest_def fetch_def caches_match_def keys_distinct_emit
      keys_distinct_cache_put keys_distinct_caches_open split: option.splits)

lemma keys_distinct_image_fallback:
  "keys_distinct w \<Longrightarrow> keys_distinct (snd (image_fallback request w))"
  by (simp add: image_fallback_def cache_match_def keys_distinct_emit keys_distinct_caches_open
      split: option.splits)

lemma keys_distinct_put_entry: "keys_distinct w \<Longrightarrow> keys_distinct (update_cache n (entry_put u r) w)"
  by (rule keys_distinct_update_cache) (simp_all add: entry_put_distinct)

lemma keys_distinct_handleOptimizedImageRequest:
  "keys_distinct w \<Longrightarrow> keys_distinct (snd (handleOptimizedImageRequest net request w))"
  by (simp add: handleOptimizedImageRequest_def image_fallback_def fetch_def cache_match_def
      cache_put_def keys_distinct_emit keys_distinct_caches_open keys_distinct_put_entry
      split: option.splits)

lemma keys_distinct_on_fetch:
  assumes "keys_distinct w"
  shows "keys_distinct (snd (on_fetch net request w))"
  using keys_distinct_handlePageRequest [OF assms, of net request]
    keys_distinct_handleOptimizedImageRequest [OF assms, of net request]
    keys_distinct_handleAPIRequest [OF assms, of net request]
    keys_distinct_handleAssetRequest [OF assms, of net request] assms
  by (auto simp: on_fetch_def split: option.splits strategy.splits prod.splits)

lemma keys_distinct_on_install: "keys_distinct w \<Longrightarrow> keys_distinct (on_install net up rs w)"
proof -
  assume w: "keys_distinct w"
  have "keys_distinct (snd (cache_addAll net up rs STATIC_CACHE STATIC_ASSETS
      (caches_open IMAGE_CACHE_NAME (caches_open STATIC_CACHE w))))"
    using w by (intro keys_distinct_cache_addAll keys_distinct_caches_open)
  then show ?thesis
    by (auto simp: on_install_def keys_distinct_emit split: prod.splits bool.splits)
qed

lemma keys_distinct_fold_delete: "keys_distinct w \<Longrightarrow> keys_distinct (fold delete_old_cache ns w)"
  by (induction ns arbitrary: w) (simp_all add: delete_old_cache_def keys_distinct_caches_delete)

lemma keys_distinct_on_activate: "keys_distinct w \<Longrightarrow> keys_distinct (on_activate w)"
  by (simp add: on_activate_def caches_keys_def keys_distinct_emit keys_distinct_fold_delete)

lemma keys_distinct_sweep: "keys_distinct w \<Longrightarrow> keys_distinct (sweep pd b us w)"
proof (induction us arbitrary: w)
  case Nil
  then show ?case by simp
next
  case (Cons u us)
  then show ?case
    by (simp add: sweep_step keys_distinct_emit keys_distinct_cache_delete
        del: sweep.simps split: option.splits)
qed

lemma keys_distinct_notify: "keys_distinct (notify_clients now i cs w) = keys_distinct w"
  by (simp add: keys_distinct_def notify_clients_caches)

lemma keys_distinct_doBackgroundSync:
  "keys_distinct w \<Longrightarrow> keys_distinct (doBackgroundSync parse_date now w)"
  by (simp add: doBackgroundSync_def cache_keys_def Let_def keys_distinct_notify keys_distinct_emit
      keys_distinct_sweep keys_distinct_caches_open)

lemma keys_distinct_preload: "keys_distinct w \<Longrightarrow> keys_distinct (preload_image net up rs u w)"
  by (simp add: preload_image_def fetch_def keys_distinct_emit keys_distinct_cache_put
      split: option.splits)

lemma keys_distinct_fold_preload:
  "keys_distinct w \<Longrightarrow> keys_distinct (fold (preload_image net up rs) us w)"
  by (induction us arbitrary: w) (simp_all add: keys_distinct_preload)

lemma keys_distinct_port_post: "keys_distinct (port_post ps m w) = keys_distinct w"
  by (simp add: port_post_def keys_distinct_emit split: list.splits)

lemma keys_distinct_on_message: "keys_distinct w \<Longrightarrow> keys_distinct (on_message net up rs ev w)"
  by (simp add: on_message_def cache_add_def cache_keys_def keys_distinct_emit keys_distinct_port_post
      keys_distinct_cache_addAll keys_distinct_caches_open keys_distinct_caches_delete
      keys_distinct_fold_preload split: option.splits)

subsection \<open>The static partition in the worlds of the worker\<close>

text \<open>Only the \<^verbatim>\<open>install\<close> handler writes the static partition: every other listener
  opens, writes or deletes the dynamic and the image partition, or deletes a partition of
  another name.\<close>

lemma the_cache_caches_delete: "m \<noteq> n \<Longrightarrow> the_cache m (caches_delete n w) = the_cache m w"
  by (simp add: the_cache_def caches_delete_def emit_def map_of_filter_fst [where Q = "\<lambda>k. k \<noteq> n"])

lemma the_cache_update_other: "m \<noteq> n \<Longrightarrow> the_cache m (update_cache n f w) = the_cache m w"
  by (simp add: the_cache_update_cache)

lemma the_cache_cache_put_other:
  "m \<noteq> n \<Longrightarrow> the_cache m (snd (cache_put n s me u r w)) = the_cache m w"
  by (simp add: cache_put_def the_cache_emit the_cache_update_other)

lemma the_cache_cache_delete_other: "m \<noteq> n \<Longrightarrow> the_cache m (cache_delete n u w) = the_cache m w"
  by (simp add: cache_delete_def the_cache_emit the_cache_update_other)

lemma the_cache_fold_add_entry_other:
  "m \<noteq> n \<Longrightarrow> the_cache m (fold (add_entry net n) us w) = the_cache m w"
  by (induction us arbitrary: w) (simp_all add: add_entry_other)

lemma the_cache_fold_emit: "the_cache m (fold (\<lambda>u. emit (g u)) us w) = the_cache m w"
  using the_cache_cong [OF fold_emit_caches] .

lemma the_cache_cache_addAll_other:
  "m \<noteq> n \<Longrightarrow> the_cache m (snd (cache_addAll net up rs n us w)) = the_cache m w"
  by (simp add: cache_addAll_def Let_def the_cache_fold_add_entry_other the_cache_fold_emit)

lemma static_handlePageRequest:
  "the_cache STATIC_CACHE (snd (handlePageRequest net request w)) = the_cache STATIC_CACHE w"
  using cache_names_distinct
  by (simp add: handlePageRequest_def fetch_def caches_match_def the_cache_emit
      the_cache_cache_put_other the_cache_caches_open split: option.splits)

lemma static_handleAPIRequest:
  "the_cache STATIC_CACHE (snd (handleAPIRequest net request w)) = the_cache STATIC_CACHE w"
  using cache_names_distinct
  by (simp add: handleAPIRequest_def fetch_def caches_match_def the_cache_emit
      the_cache_cache_put_other the_cache_caches_open split: option.splits)

lemma static_handleAssetRequest:
  "the_cache STATIC_CACHE (snd (handleAssetRequest net request w)) = the_cache STATIC_CACHE w"
  using cache_names_distinct
  by (simp add: handleAssetRequest_def fetch_def caches_match_def the_cache_emit
      the_cache_cache_put_other the_cache_caches_open split: option.splits)

lemma static_handleOptimizedImageRequest:
  "the_cache STATIC_CACHE (snd (handleOptimizedImageRequest net request w)) = the_cache STATIC_CACHE w"
  using cache_names_distinct
  by (simp add: handleOptimizedImageRequest_def image_fallback_def fetch_def cache_match_def
      cache_put_def the_cache_emit the_cache_caches_open the_cache_update_other
      split: option.splits)

lemma static_on_fetch:
  "the_cache STATIC_CACHE (snd (on_fetch net request w)) = the_cache STATIC_CACHE w"
  using static_handlePageRequest [of net request w]
    static_handleOptimizedImageRequest [of net request w]
    static_handleAPIRequest [of net request w]
    static_handleAssetRequest [of net request w]
  by (auto simp: on_fetch_def split: option.splits strategy.splits prod.splits)

lemma static_on_activate: "the_cache STATIC_CACHE (on_activate w) = the_cache STATIC_CACHE w"
proof -
  let ?Q = "\<lambda>n. n \<in> set current_caches \<or> n \<notin> set (map fst (caches w))"
  have "caches (on_activate w) = filter (\<lambda>p. ?Q (fst p)) (caches w)"
    by (simp add: on_activate_def caches_keys_def emit_def fold_delete_old_cache_caches)
  then have "map_of (caches (on_activate w)) STATIC_CACHE =
      (if ?Q STATIC_CACHE then map_of (caches w) STATIC_CACHE else None)"
    by (simp only: map_of_filter_fst [where Q = ?Q])
  moreover have "?Q STATIC_CACHE" by (simp add: current_caches_def)
  ultimately show ?thesis by (simp add: the_cache_def)
qed

lemma static_sweep: "the_cache STATIC_CACHE (sweep pd b us w) = the_cache STATIC_CACHE w"
proof (induction us arbitrary: w)
  case Nil
  show ?case by simp
next
  case (Cons u us)
  show ?case
    using cache_names_distinct
    by (simp add: sweep_step Cons the_cache_emit the_cache_cache_delete_other
        del: sweep.simps split: option.splits)
qed

lemma static_notify: "the_cache m (notify_clients now i cs w) = the_cache m w"
  using the_cache_cong [OF notify_clients_caches] .

lemma static_doBackgroundSync:
  "the_cache STATIC_CACHE (doBackgroundSync parse_date now w) = the_cache STATIC_CACHE w"
  by (simp add: doBackgroundSync_def cache_keys_def Let_def static_notify the_cache_emit
      static_sweep the_cache_caches_open)

lemma static_on_sync:
  "the_cache STATIC_CACHE (on_sync parse_date now tag w) = the_cache STATIC_CACHE w"
  by (simp add: on_sync_def static_doBackgroundSync)

lemma static_preload:
  "the_cache STATIC_CACHE (preload_image net up rs u w) = the_cache STATIC_CACHE w"
  using cache_names_distinct
  by (simp add: preload_image_def fetch_def the_cache_emit the_cache_cache_put_other
      split: option.splits)

lemma static_fold_preload:
  "the_cache STATIC_CACHE (fold (preload_image net up rs) us w) = the_cache STATIC_CACHE w"
  by (induction us arbitrary: w) (simp_all add: static_preload)

lemma static_port_post: "the_cache m (port_post ps msg w) = the_cache m w"
  by (simp add: port_post_def the_cache_emit split: list.splits)

lemma static_on_message:
  "the_cache STATIC_CACHE (on_message net up rs ev w) = the_cache STATIC_CACHE w"
  using cache_names_distinct
  by (simp add: on_message_def cache_add_def cache_keys_def the_cache_emit static_port_post
      the_cache_cache_addAll_other the_cache_caches_open the_cache_caches_delete
      static_fold_preload split: option.splits)

lemma static_on_install:
  "set (map fst (the_cache STATIC_CACHE (on_install net up rs w))) \<subseteq>
     set (map fst (the_cache STATIC_CACHE w)) \<union> set (manifest_urls rs)"
proof (cases "install_succeeds net up rs")
  case True
  then show ?thesis by (auto simp: on_install_keys)
next
  case False
  then show ?thesis
    by (simp add: on_install_failure the_cache_emit the_cache_fold_emit the_cache_caches_open)
qed

text \<open>So the static partition of a world of the worker holds manifest URLs only.\<close>

lemma reachable_static:
  "reachable rs w \<Longrightarrow> set (map fst (the_cache STATIC_CACHE w)) \<subseteq> set (manifest_urls rs)"
proof (induction rule: reachable.induct)
  case (initial w)
  then show ?case by (simp add: the_cache_def)
next
  case (install w net url_protocol)
  then show ?case using static_on_install [of net url_protocol rs w] by blast
next
  case (activate w)
  then show ?case by (simp add: static_on_activate)
next
  case (fetched w net request)
  then show ?case by (simp add: static_on_fetch)
next
  case (synced w parse_date now tag)
  then show ?case by (simp add: static_on_sync)
next
  case (message w net url_protocol event)
  then show ?case by (simp add: static_on_message)
qed

text \<open>
  C8. In any world of the worker, after the \<^verbatim>\<open>install\<close> handler has completed
  successfully the static partition holds exactly the entries of the manifest, no more and no
  fewer: its URLs are those of the manifest, resolved against the worker's location, in order,
  each with the response just fetched, and no other URL has an entry. The image partition
  exists, and the last effect is \<^verbatim>\<open>skipWaiting\<close>.
\<close>

theorem install_populates_static:
  assumes "reachable resolve w"
    and "install_succeeds net url_protocol resolve"
  shows "map fst (the_cache STATIC_CACHE (on_install net url_protocol resolve w)) =
           manifest_urls resolve \<and>
         length (the_cache STATIC_CACHE (on_install net url_protocol resolve w)) =
           length STATIC_ASSETS \<and>
         (\<forall>k. map_of (the_cache STATIC_CACHE (on_install net url_protocol resolve w)) k =
                (if k \<in> set (manifest_urls resolve) then net ''GET'' k [] else None)) \<and>
         map_of (caches (on_install net url_protocol resolve w)) IMAGE_CACHE_NAME \<noteq> None \<and>
         trace (on_install net url_protocol resolve w) =
           trace w @ [CachesOpen STATIC_CACHE, CachesOpen IMAGE_CACHE_NAME] @
           map (Fetch ''GET'') (manifest_urls resolve) @
           map (CachePut STATIC_CACHE) (manifest_urls resolve) @ [SkipWaiting]"
proof -
  let ?w' = "on_install net url_protocol resolve w"
  have old: "set (map fst (the_cache STATIC_CACHE w)) \<subseteq> set (manifest_urls resolve)"
    using assms(1) by (rule reachable_static)
  then have "filter (\<lambda>k. k \<notin> set (manifest_urls resolve)) (map fst (the_cache STATIC_CACHE w)) = []"
    by (auto simp: filter_empty_conv)
  then have keys: "map fst (the_cache STATIC_CACHE ?w') = manifest_urls resolve"
    by (simp add: on_install_keys [OF assms(2)])
  have "length (the_cache STATIC_CACHE ?w') = length (map fst (the_cache STATIC_CACHE ?w'))"
    by simp
  also have "\<dots> = length STATIC_ASSETS"
    unfolding keys by (simp add: manifest_urls_def)
  finally have len: "length (the_cache STATIC_CACHE ?w') = length STATIC_ASSETS" .
  have look: "map_of (the_cache STATIC_CACHE ?w') k =
                (if k \<in> set (manifest_urls resolve) then net ''GET'' k [] else None)" for k
  proof (cases "k \<in> set (manifest_urls resolve)")
    case True
    then show ?thesis by (simp add: on_install_lookup [OF assms(2)])
  next
    case False
    with old have "k \<notin> fst ` set (the_cache STATIC_CACHE w)" by auto
    then have "map_of (the_cache STATIC_CACHE w) k = None" by (simp add: map_of_eq_None_iff)
    with False show ?thesis by (simp add: on_install_lookup [OF assms(2)])
  qed
  show ?thesis
    using keys len look on_install_image_present [of net url_protocol resolve w]
      on_install_trace [OF assms(2), of w]
    by blast
qed

theorem install_populates_static_witness:
  "reachable sample_resolve (on_install serving_network https_only sample_resolve empty_world) \<and>
   install_succeeds serving_network https_only sample_resolve \<and>
   map fst (the_cache STATIC_CACHE
      (on_install serving_network https_only sample_resolve
         (on_install serving_network https_only sample_resolve empty_world))) =
     [''https://acwhisk.app/'',
      ''https://acwhisk.app/App.tsx'',
      ''https://acwhisk.app/styles/globals.css'',
      ''https://acwhisk.app/components/ui/button.tsx'',
      ''https://acwhisk.app/components/ui/card.tsx'',
      ''https://acwhisk.app/components/ui/avatar.tsx'',
      ''https://acwhisk.app/components/figma/ImageWithFallback.tsx''] \<and>
   length (the_cache STATIC_CACHE
      (on_install serving_network https_only sample_resolve
         (on_install serving_network https_only sample_resolve empty_world))) = 7 \<and>
   map_of (the_cache STATIC_CACHE
      (on_install serving_network https_only sample_resolve
         (on_install serving_network https_only sample_resolve empty_world)))
     ''https://acwhisk.app/App.tsx'' = Some sample_response \<and>
   map_of (the_cache STATIC_CACHE
      (on_install serving_network https_only sample_resolve
         (on_install serving_network https_only sample_resolve empty_world)))
     ''/App.tsx'' = None"
proof -
  let ?w1 = "on_install serving_network https_only sample_resolve empty_world"
  have "caches empty_world = []" by (simp add: empty_world_def)
  then have "reachable sample_resolve empty_world" by (rule reachable.initial)
  then have r: "reachable sample_resolve ?w1" by (rule reachable.install)
  note inst = install_populates_static [OF r serving_network_succeeds]
  have keys: "map fst (the_cache STATIC_CACHE
      (on_install serving_network https_only sample_resolve ?w1)) = manifest_urls sample_resolve"
    using inst by blast
  have len: "length (the_cache STATIC_CACHE
      (on_install serving_network https_only sample_resolve ?w1)) = 7"
    using inst by (simp add: STATIC_ASSETS_def)
  have look: "map_of (the_cache STATIC_CACHE
      (on_install serving_network https_only sample_resolve ?w1)) k =
        (if k \<in> set (manifest_urls sample_resolve) then serving_network ''GET'' k [] else None)" for k
    using inst by blast
  have app: "map_of (the_cache STATIC_CACHE
      (on_install serving_network https_only sample_resolve ?w1)) ''https://acwhisk.app/App.tsx'' =
        Some sample_response"
    unfolding look by (simp add: sample_manifest_urls serving_network_def)
  have raw: "map_of (the_cache STATIC_CACHE
      (on_install serving_network https_only sample_resolve ?w1)) ''/App.tsx'' = None"
    unfolding look by (simp add: sample_manifest_urls)
  from r serving_network_succeeds keys len app raw show ?thesis
    by (simp add: sample_manifest_urls)
qed

end
